theory Spec2Isabelle
  imports Main
begin

section \<open>JavaScript values carried by the events\<close>

text \<open>
  Every payload of the relay in \<^verbatim>\<open>server.js\<close> is a value decoded from the wire: JSON,
  plus \<^verbatim>\<open>undefined\<close> for an argument or a property that is absent. An object is the
  list of its own properties; a property that is absent reads as \<^verbatim>\<open>undefined\<close>.
\<close>

datatype jsval =
    JUndefined
  | JNull
  | JBool bool
  | JNum int
  | JStr string
  | JArr "jsval list"
  | JObj "(string \<times> jsval) list"

datatype error = TypeError

text \<open>\<^verbatim>\<open>!v\<close> is \<open>\<not> truthy v\<close>: the falsy values are undefined, null, false, 0 and the
  empty string.\<close>

fun truthy :: "jsval \<Rightarrow> bool" where
  "truthy JUndefined = False"
| "truthy JNull = False"
| "truthy (JBool b) = b"
| "truthy (JNum n) = (n \<noteq> 0)"
| "truthy (JStr s) = (s \<noteq> [])"
| "truthy (JArr xs) = True"
| "truthy (JObj fs) = True"

fun nullish :: "jsval \<Rightarrow> bool" where
  "nullish JUndefined = True"
| "nullish JNull = True"
| "nullish v = False"

text \<open>\<open>field v k\<close> is what \<^verbatim>\<open>v.k\<close> reads on a value that is neither null nor undefined,
  for the property names the server uses (none of them is inherited from a prototype).\<close>

fun field :: "jsval \<Rightarrow> string \<Rightarrow> jsval" where
  "field (JObj fs) k = (case map_of fs k of None \<Rightarrow> JUndefined | Some v \<Rightarrow> v)"
| "field v k = JUndefined"

text \<open>\<^verbatim>\<open>v.k\<close> throws a TypeError on null and undefined; \<^verbatim>\<open>v?.k\<close> reads undefined there.\<close>

definition get_field :: "jsval \<Rightarrow> string \<Rightarrow> error + jsval" where
  "get_field v k = (if nullish v then Inl TypeError else Inr (field v k))"

definition opt_field :: "jsval \<Rightarrow> string \<Rightarrow> jsval" where
  "opt_field v k = (if nullish v then JUndefined else field v k)"

text \<open>Arrays and objects are references. Two of them decoded at different places of a
  payload, or from different packets, are never the same object, whatever they hold; so
  \<^verbatim>\<open>a === b\<close> on two decoded values holds only for equal values that are not references.\<close>

fun is_ref :: "jsval \<Rightarrow> bool" where
  "is_ref (JArr xs) = True"
| "is_ref (JObj fs) = True"
| "is_ref v = False"

definition strict_eq :: "jsval \<Rightarrow> jsval \<Rightarrow> bool" where
  "strict_eq a b = (\<not> is_ref a \<and> a = b)"

text \<open>A template literal converts each value it interpolates to a string. That throws a
  TypeError on an object with a property \<^verbatim>\<open>toString\<close> of its own (a decoded value is
  never a function, and the inherited \<^verbatim>\<open>valueOf\<close> returns the object), and on an array
  that holds such a value: an array is joined from the strings of its elements, null and
  undefined counting as empty.\<close>

fun to_string_throws :: "jsval \<Rightarrow> bool" where
  "to_string_throws (JObj fs) = (map_of fs ''toString'' \<noteq> None)"
| "to_string_throws (JArr xs) = (\<exists>x \<in> set xs. \<not> nullish x \<and> to_string_throws x)"
| "to_string_throws v = False"

section \<open>The Socket.IO server: sockets, rooms, emits\<close>

text \<open>
  The state of the relay is the room table of the Socket.IO adapter and nothing else:
  the connected sockets in the order they connected, each with the keys of the rooms it
  is in, in insertion order. A socket is put into the room named by its own id when it
  connects, and is still in its rooms while its \<^verbatim>\<open>disconnecting\<close> handler runs.

  The adapter keeps its rooms in a Map. A key that is a string, a number, a boolean, null
  or undefined is found again by any equal value. A key that is an object or an array is
  found again only by that very object, which no later payload can hold.

  \<^verbatim>\<open>socket.join\<close> and \<^verbatim>\<open>io.to\<close> take a room or an array of rooms: an array stands for
  its elements, one level deep.

  A delivery is one event written to one socket: the receiving socket, the event name and
  the arguments of the event. The deliveries of one broadcast are listed in the order the
  sockets connected; no statement below depends on the order within a broadcast.
\<close>

type_synonym sid = string
type_synonym server = "(sid \<times> jsval list) list"
type_synonym delivery = "sid \<times> string \<times> jsval list"

text \<open>A handler either returns, with the state it leaves and the deliveries it made, or
  throws, with the state it had reached and the deliveries it had made. What the process
  does with the exception is outside the handlers.\<close>

type_synonym outcome = "(error \<times> server \<times> delivery list) + (server \<times> delivery list)"

definition state_after :: "outcome \<Rightarrow> server" where
  "state_after r = (case r of Inl (e, st, ds) \<Rightarrow> st | Inr (st, ds) \<Rightarrow> st)"

definition connection :: "server \<Rightarrow> sid \<Rightarrow> server" where
  "connection st sid = st @ [(sid, [JStr sid])]"

definition socket_rooms :: "server \<Rightarrow> sid \<Rightarrow> jsval list" where
  "socket_rooms st sid = (case map_of st sid of None \<Rightarrow> [] | Some rs \<Rightarrow> rs)"

text \<open>\<^verbatim>\<open>Array.isArray(room) ? room : [room]\<close>\<close>

definition room_args :: "jsval \<Rightarrow> jsval list" where
  "room_args room = (case room of JArr xs \<Rightarrow> xs | _ \<Rightarrow> [room])"

text \<open>Adding a key to the set of rooms of a socket: a key that is not a reference is added
  unless an equal one is there; a reference is a key of its own.\<close>

definition add_room :: "jsval \<Rightarrow> jsval list \<Rightarrow> jsval list" where
  "add_room room rs = (if \<not> is_ref room \<and> room \<in> set rs then rs else rs @ [room])"

definition socket_join :: "server \<Rightarrow> sid \<Rightarrow> jsval \<Rightarrow> server" where
  "socket_join st sid room =
     map (\<lambda>(s, rs). if s = sid then (s, fold add_room (room_args room) rs) else (s, rs)) st"

definition socket_emit :: "sid \<Rightarrow> string \<Rightarrow> jsval list \<Rightarrow> delivery list" where
  "socket_emit sid ev args = [(sid, ev, args)]"

text \<open>\<^verbatim>\<open>io.to(room)\<close> on a value taken from a payload: the sockets that are in one of the
  rooms named, each socket once. A reference among the names finds no room. With no name
  at all (the empty array) the broadcast has no room to restrict it and goes to every
  socket.\<close>

definition io_to :: "server \<Rightarrow> jsval \<Rightarrow> sid list" where
  "io_to st room =
     (if room_args room = [] then map fst st
      else map fst (filter (\<lambda>(s, rs). list_ex (\<lambda>r. \<not> is_ref r \<and> r \<in> set rs) (room_args room))
                           st))"

definition io_to_emit :: "server \<Rightarrow> jsval \<Rightarrow> string \<Rightarrow> jsval list \<Rightarrow> delivery list" where
  "io_to_emit st room ev args = map (\<lambda>s. (s, ev, args)) (io_to st room)"

text \<open>What the library does once the \<^verbatim>\<open>disconnecting\<close> handlers have run: the socket
  leaves every room and is gone.\<close>

definition disconnect :: "server \<Rightarrow> sid \<Rightarrow> server" where
  "disconnect st sid = filter (\<lambda>(s, rs). s \<noteq> sid) st"

text \<open>The table is well formed when socket ids are unique, every socket is in its own
  room, and no socket lists a room twice.\<close>

definition wf :: "server \<Rightarrow> bool" where
  "wf st = (distinct (map fst st) \<and>
            list_all (\<lambda>(s, rs). distinct rs \<and> JStr s \<in> set rs) st)"

section \<open>The event handlers of server.js\<close>

text \<open>\<^verbatim>\<open>socket.on("setup", ...)\<close>: the guard, the join, the log line that prints
  \<^verbatim>\<open>userData.name\<close> and \<^verbatim>\<open>userData._id\<close> through a template literal, then the reply.\<close>

definition on_setup :: "server \<Rightarrow> sid \<Rightarrow> jsval \<Rightarrow> outcome" where
  "on_setup st sid userData =
     (if \<not> truthy (opt_field userData ''_id'') then Inr (st, [])
      else if to_string_throws (field userData ''name'')
                \<or> to_string_throws (field userData ''_id'')
           then Inl (TypeError, socket_join st sid (field userData ''_id''), [])
           else Inr (socket_join st sid (field userData ''_id''),
                     socket_emit sid ''connected'' []))"

text \<open>\<^verbatim>\<open>socket.on("join chat", ...)\<close>: the join, then the log line that prints
  \<^verbatim>\<open>roomId\<close>.\<close>

definition on_join_chat :: "server \<Rightarrow> sid \<Rightarrow> jsval \<Rightarrow> outcome" where
  "on_join_chat st sid roomId =
     (if to_string_throws roomId then Inl (TypeError, socket_join st sid roomId, [])
      else Inr (socket_join st sid roomId, []))"

text \<open>\<^verbatim>\<open>socket.on("new message", ...)\<close>: the body of \<^verbatim>\<open>chat.users.forEach\<close> runs for each
  user in turn; \<open>acc\<close> holds the deliveries made so far, which a throw leaves made.\<close>

fun forEach_user :: "server \<Rightarrow> jsval \<Rightarrow> jsval list \<Rightarrow> delivery list
                      \<Rightarrow> (error \<times> delivery list) + delivery list" where
  "forEach_user st message [] acc = Inr acc"
| "forEach_user st message (user # users) acc =
     (case get_field user ''_id'' of
        Inl e \<Rightarrow> Inl (e, acc)
      | Inr uid \<Rightarrow>
          (case get_field (field message ''sender'') ''_id'' of
             Inl e \<Rightarrow> Inl (e, acc)
           | Inr sender_id \<Rightarrow>
               if strict_eq uid sender_id then forEach_user st message users acc
               else forEach_user st message users
                      (acc @ io_to_emit st uid ''message received'' [message])))"

definition on_new_message :: "server \<Rightarrow> sid \<Rightarrow> jsval \<Rightarrow> outcome" where
  "on_new_message st sid message =
     (case get_field message ''chat'' of
        Inl e \<Rightarrow> Inl (e, st, [])
      | Inr chat \<Rightarrow>
          if \<not> truthy (opt_field chat ''users'') then Inr (st, [])
          else (case field chat ''users'' of
                  JArr users \<Rightarrow>
                    (case forEach_user st message users [] of
                       Inl (e, ds) \<Rightarrow> Inl (e, st, ds)
                     | Inr ds \<Rightarrow> Inr (st, ds))
                | _ \<Rightarrow> Inl (TypeError, st, [])))"

text \<open>The call signalling handlers. Each reads \<^verbatim>\<open>data.to\<close> first, which throws when
  there is no payload.\<close>

definition on_call_user :: "server \<Rightarrow> sid \<Rightarrow> jsval \<Rightarrow> outcome" where
  "on_call_user st sid data =
     (if nullish data then Inl (TypeError, st, [])
      else Inr (st, io_to_emit st (field data ''to'') ''incoming-call''
                      [JObj [(''from'', field data ''from''),
                             (''name'', field data ''name''),
                             (''callType'', field data ''callType'')]]))"

definition on_call_accepted :: "server \<Rightarrow> sid \<Rightarrow> jsval \<Rightarrow> outcome" where
  "on_call_accepted st sid data =
     (if nullish data then Inl (TypeError, st, [])
      else Inr (st, io_to_emit st (field data ''to'') ''call-accepted''
                      [JObj [(''from'', field data ''from'')]]))"

definition on_prepare_call :: "server \<Rightarrow> sid \<Rightarrow> jsval \<Rightarrow> outcome" where
  "on_prepare_call st sid data =
     (if nullish data then Inl (TypeError, st, [])
      else Inr (st, io_to_emit st (field data ''to'') ''prepare-call''
                      [JObj [(''from'', field data ''from'')]]))"

definition on_ready_for_offer :: "server \<Rightarrow> sid \<Rightarrow> jsval \<Rightarrow> outcome" where
  "on_ready_for_offer st sid data =
     (if nullish data then Inl (TypeError, st, [])
      else Inr (st, io_to_emit st (field data ''to'') ''ready-for-offer''
                      [JObj [(''from'', field data ''from'')]]))"

definition on_webrtc_offer :: "server \<Rightarrow> sid \<Rightarrow> jsval \<Rightarrow> outcome" where
  "on_webrtc_offer st sid data =
     (if nullish data then Inl (TypeError, st, [])
      else Inr (st, io_to_emit st (field data ''to'') ''webrtc-offer'' [data]))"

definition on_webrtc_answer :: "server \<Rightarrow> sid \<Rightarrow> jsval \<Rightarrow> outcome" where
  "on_webrtc_answer st sid data =
     (if nullish data then Inl (TypeError, st, [])
      else Inr (st, io_to_emit st (field data ''to'') ''webrtc-answer'' [data]))"

definition on_webrtc_ice_candidate :: "server \<Rightarrow> sid \<Rightarrow> jsval \<Rightarrow> outcome" where
  "on_webrtc_ice_candidate st sid data =
     (if nullish data then Inl (TypeError, st, [])
      else Inr (st, io_to_emit st (field data ''to'') ''webrtc-ice-candidate'' [data]))"

definition on_end_call :: "server \<Rightarrow> sid \<Rightarrow> jsval \<Rightarrow> outcome" where
  "on_end_call st sid data =
     (if nullish data then Inl (TypeError, st, [])
      else Inr (st, io_to_emit st (field data ''to'') ''end-call'' [data]))"

text \<open>\<^verbatim>\<open>socket.on("disconnecting", ...)\<close>: the socket is still in its rooms while this
  runs, so a broadcast to one of its rooms addresses it as well. Here \<^verbatim>\<open>io.to\<close> is given
  the keys the socket holds. A key that is an object is the room of that very object,
  which this socket alone has joined; a key that is an array is taken by \<^verbatim>\<open>io.to\<close> for
  the rooms its elements name, as any array is.\<close>

definition on_disconnecting :: "server \<Rightarrow> sid \<Rightarrow> delivery list" where
  "on_disconnecting st sid =
     concat (map (\<lambda>room. if room \<noteq> JStr sid
                          then (case room of
                                  JObj fs \<Rightarrow> socket_emit sid ''peer-disconnected''
                                               [JObj [(''socketId'', JStr sid)]]
                                | _ \<Rightarrow> io_to_emit st room ''peer-disconnected''
                                         [JObj [(''socketId'', JStr sid)]])
                          else [])
                 (socket_rooms st sid))"

text \<open>The events a client can send, by wire name; a name with no handler does nothing.\<close>

definition call_signals :: "string list" where
  "call_signals = [''call-user'', ''call-accepted'', ''prepare-call'', ''ready-for-offer'',
                   ''webrtc-offer'', ''webrtc-answer'', ''webrtc-ice-candidate'', ''end-call'']"

definition handle :: "server \<Rightarrow> sid \<Rightarrow> string \<Rightarrow> jsval \<Rightarrow> outcome" where
  "handle st sid name payload =
     (if name = ''setup'' then on_setup st sid payload
      else if name = ''join chat'' then on_join_chat st sid payload
      else if name = ''new message'' then on_new_message st sid payload
      else if name = ''call-user'' then on_call_user st sid payload
      else if name = ''call-accepted'' then on_call_accepted st sid payload
      else if name = ''prepare-call'' then on_prepare_call st sid payload
      else if name = ''ready-for-offer'' then on_ready_for_offer st sid payload
      else if name = ''webrtc-offer'' then on_webrtc_offer st sid payload
      else if name = ''webrtc-answer'' then on_webrtc_answer st sid payload
      else if name = ''webrtc-ice-candidate'' then on_webrtc_ice_candidate st sid payload
      else if name = ''end-call'' then on_end_call st sid payload
      else Inr (st, []))"

text \<open>What a socket received from a list of deliveries under an event name: the argument
  lists, in order.\<close>

definition received :: "delivery list \<Rightarrow> sid \<Rightarrow> string \<Rightarrow> jsval list list" where
  "received ds s ev = map (\<lambda>(r, e, args). args) (filter (\<lambda>(r, e, args). r = s \<and> e = ev) ds)"

definition recipients :: "delivery list \<Rightarrow> string \<Rightarrow> sid set" where
  "recipients ds ev = set (map fst (filter (\<lambda>(r, e, args). e = ev) ds))"

section \<open>Facts about the room table\<close>

lemma room_args_prim: "\<not> is_ref room \<Longrightarrow> room_args room = [room]"
  by (cases room) (simp_all add: room_args_def)

lemma set_fold_add_room: "set (fold add_room xs rs) = set rs \<union> set xs"
  by (induction xs arbitrary: rs) (auto simp: add_room_def)

lemma socket_join_fst: "map fst (socket_join st sid room) = map fst st"
  by (induction st) (auto simp: socket_join_def)

lemma map_of_socket_join:
  "map_of (socket_join st sid room) s =
     map_option (\<lambda>rs. if s = sid then fold add_room (room_args room) rs else rs) (map_of st s)"
  by (induction st) (auto simp: socket_join_def)

lemma socket_rooms_join_other:
  "s \<noteq> sid \<Longrightarrow> socket_rooms (socket_join st sid room) s = socket_rooms st s"
  by (simp add: socket_rooms_def map_of_socket_join split: option.splits)

lemma socket_rooms_join_self:
  assumes "sid \<in> fst ` set st"
  shows "set (socket_rooms (socket_join st sid room) sid)
           = set (socket_rooms st sid) \<union> set (room_args room)"
proof -
  from assms obtain rs where "map_of st sid = Some rs"
    by (cases "map_of st sid") (auto simp: map_of_eq_None_iff)
  then show ?thesis
    by (simp add: socket_rooms_def map_of_socket_join set_fold_add_room)
qed

lemma socket_rooms_join_mono:
  "set (socket_rooms st s) \<subseteq> set (socket_rooms (socket_join st sid room) s)"
  by (auto simp: socket_rooms_def map_of_socket_join set_fold_add_room split: option.splits)

lemma io_to_prim:
  "\<not> is_ref room \<Longrightarrow> io_to st room = map fst (filter (\<lambda>(s, rs). room \<in> set rs) st)"
  by (simp add: io_to_def room_args_prim)

lemma io_to_mem:
  assumes "\<not> is_ref room"
  shows "s \<in> set (io_to st room) \<longleftrightarrow> (\<exists>rs. (s, rs) \<in> set st \<and> room \<in> set rs)"
  by (force simp: io_to_prim [OF assms])

lemma io_to_rooms:
  assumes "distinct (map fst st)" "\<not> is_ref room"
  shows "s \<in> set (io_to st room) \<longleftrightarrow> room \<in> set (socket_rooms st s)"
proof
  assume "s \<in> set (io_to st room)"
  then obtain rs where "(s, rs) \<in> set st" "room \<in> set rs"
    by (auto simp: io_to_mem [OF assms(2)])
  with assms(1) show "room \<in> set (socket_rooms st s)" by (simp add: socket_rooms_def)
next
  assume r: "room \<in> set (socket_rooms st s)"
  then obtain rs where m: "map_of st s = Some rs"
    by (cases "map_of st s") (auto simp: socket_rooms_def)
  with r have "room \<in> set rs" by (simp add: socket_rooms_def)
  moreover from m have "(s, rs) \<in> set st" by (rule map_of_SomeD)
  ultimately show "s \<in> set (io_to st room)" by (auto simp: io_to_mem [OF assms(2)])
qed

lemma io_to_distinct: "distinct (map fst st) \<Longrightarrow> distinct (io_to st room)"
  unfolding io_to_def by (simp add: distinct_map_filter)

section \<open>Facts about deliveries and about the message loop\<close>

lemma opt_field_eq: "opt_field v k = field v k"
  by (cases v) (simp_all add: opt_field_def)

lemma field_not_nullish: "field v k \<noteq> JUndefined \<Longrightarrow> \<not> nullish v"
  by (cases v) simp_all

lemma field_str_not_nullish: "field v k = JStr x \<Longrightarrow> \<not> nullish v"
  by (cases v) simp_all

lemma strict_eq_str: "strict_eq (JStr x) v \<longleftrightarrow> v = JStr x"
  by (auto simp: strict_eq_def)

lemma filter_eq_distinct:
  "distinct xs \<Longrightarrow> filter (\<lambda>x. x = b) xs = (if b \<in> set xs then [b] else [])"
  by (induction xs) auto

lemma received_append: "received (ds @ ds') s ev = received ds s ev @ received ds' s ev"
  by (simp add: received_def)

lemma received_Nil: "received [] s ev = []"
  by (simp add: received_def)

lemma received_io_to_emit:
  assumes "distinct (map fst st)" "\<not> is_ref room"
  shows "received (io_to_emit st room ev args) b ev' =
           (if ev' = ev \<and> room \<in> set (socket_rooms st b) then [args] else [])"
proof -
  have "received (io_to_emit st room ev args) b ev' =
          map (\<lambda>s. args) (filter (\<lambda>s. s = b \<and> ev = ev') (io_to st room))"
    by (simp add: received_def io_to_emit_def filter_map comp_def)
  also have "\<dots> = (if ev' = ev \<and> b \<in> set (io_to st room) then [args] else [])"
    using io_to_distinct [OF assms(1), of room]
    by (auto simp: filter_eq_distinct)
  finally show ?thesis using assms by (simp add: io_to_rooms)
qed

lemma received_concat:
  "received (concat (map f xs)) t ev = concat (map (\<lambda>x. received (f x) t ev) xs)"
  by (induction xs) (simp_all add: received_Nil received_append)

lemma recipients_Nil: "recipients [] ev = {}"
  by (simp add: recipients_def)

lemma recipients_io_to_emit:
  "recipients (io_to_emit st room ev args) ev' = (if ev' = ev then set (io_to st room) else {})"
  by (auto simp: recipients_def io_to_emit_def filter_map comp_def)

lemma recipients_concat:
  "recipients (concat (map f xs)) ev = (\<Union>x \<in> set xs. recipients (f x) ev)"
  by (induction xs) (simp_all add: recipients_def)

lemma recipients_received:
  "t \<in> recipients ds ev \<longleftrightarrow> received ds t ev \<noteq> []"
  by (induction ds) (auto simp: recipients_def received_def)

lemma recipients_all_io_to_emit:
  "fst ` set (io_to_emit st room ev args) = set (io_to st room)"
  by (force simp: io_to_emit_def)

text \<open>The loop over users whose \<^verbatim>\<open>_id\<close> are strings.\<close>

lemma forEach_user_ok:
  assumes "\<not> nullish (field message ''sender'')" "\<forall>u \<in> set users. \<exists>i. field u ''_id'' = JStr i"
  shows "forEach_user st message users acc =
           Inr (acc @ concat (map (\<lambda>u. if field u ''_id'' = field (field message ''sender'') ''_id''
                                        then []
                                        else io_to_emit st (field u ''_id'') ''message received'' [message])
                                  users))"
  using assms
proof (induction users arbitrary: acc)
  case Nil
  then show ?case by simp
next
  case (Cons u users)
  from Cons.prems(2) obtain i where i: "field u ''_id'' = JStr i" by auto
  then have n: "\<not> nullish u" by (rule field_str_not_nullish)
  have e: "strict_eq (JStr i) (field (field message ''sender'') ''_id'')
             \<longleftrightarrow> JStr i = field (field message ''sender'') ''_id''"
    by (auto simp: strict_eq_def)
  show ?case
    using Cons.IH [OF Cons.prems(1)] Cons.prems i n e
    by (simp add: get_field_def)
qed

lemma handle_new_message: "handle st s ''new message'' p = on_new_message st s p"
  by (simp add: handle_def)

lemma on_new_message_ok:
  assumes "field (field message ''chat'') ''users'' = JArr users"
    and "\<not> nullish (field message ''sender'')" "\<forall>u \<in> set users. \<exists>i. field u ''_id'' = JStr i"
  shows "handle st s ''new message'' message =
           Inr (st, concat (map (\<lambda>u. if field u ''_id'' = field (field message ''sender'') ''_id''
                                        then []
                                        else io_to_emit st (field u ''_id'') ''message received'' [message])
                                  users))"
proof -
  have "field message ''chat'' \<noteq> JUndefined" using assms(1) by auto
  then have "\<not> nullish message" by (rule field_not_nullish)
  then show ?thesis
    using assms(1) forEach_user_ok [OF assms(2,3), of st "[]"]
    by (simp add: handle_new_message on_new_message_def get_field_def opt_field_eq)
qed

lemma fanout_recipients:
  "t \<in> recipients (concat (map (\<lambda>u. if field u ''_id'' = sender_id then []
                                      else io_to_emit st (field u ''_id'') ''message received'' [message])
                                users)) ''message received''
     \<longleftrightarrow> (\<exists>u \<in> set users. field u ''_id'' \<noteq> sender_id \<and> t \<in> set (io_to st (field u ''_id'')))"
  by (auto simp: recipients_concat recipients_io_to_emit recipients_Nil split: if_splits)

section \<open>Facts about dispatch and about the handlers\<close>

lemmas signal_defs = on_call_user_def on_call_accepted_def on_prepare_call_def
  on_ready_for_offer_def on_webrtc_offer_def on_webrtc_answer_def
  on_webrtc_ice_candidate_def on_end_call_def

lemma handle_setup: "handle st s ''setup'' p = on_setup st s p"
  by (simp add: handle_def)

lemma handle_join_chat: "handle st s ''join chat'' p = on_join_chat st s p"
  by (simp add: handle_def)

lemma handle_call_user: "handle st s ''call-user'' p = on_call_user st s p"
  by (simp add: handle_def)

lemma handle_call_accepted: "handle st s ''call-accepted'' p = on_call_accepted st s p"
  by (simp add: handle_def)

lemma handle_prepare_call: "handle st s ''prepare-call'' p = on_prepare_call st s p"
  by (simp add: handle_def)

lemma handle_ready_for_offer: "handle st s ''ready-for-offer'' p = on_ready_for_offer st s p"
  by (simp add: handle_def)

lemma handle_webrtc_offer: "handle st s ''webrtc-offer'' p = on_webrtc_offer st s p"
  by (simp add: handle_def)

lemma handle_webrtc_answer: "handle st s ''webrtc-answer'' p = on_webrtc_answer st s p"
  by (simp add: handle_def)

lemma handle_webrtc_ice_candidate:
  "handle st s ''webrtc-ice-candidate'' p = on_webrtc_ice_candidate st s p"
  by (simp add: handle_def)

lemma handle_end_call: "handle st s ''end-call'' p = on_end_call st s p"
  by (simp add: handle_def)

lemmas handle_signal_simps = handle_call_user handle_call_accepted handle_prepare_call
  handle_ready_for_offer handle_webrtc_offer handle_webrtc_answer handle_webrtc_ice_candidate
  handle_end_call

lemma signal_relayed:
  assumes "\<not> nullish data"
  shows "\<forall>name \<in> set call_signals.
           \<exists>ds. handle st s name data = Inr (st, ds)
              \<and> fst ` set ds = set (io_to st (field data ''to''))"
  using assms unfolding call_signals_def
  by (simp add: handle_signal_simps signal_defs recipients_all_io_to_emit)

lemma handle_cases:
  "handle st sid name payload \<in>
     {on_setup st sid payload, on_join_chat st sid payload, on_new_message st sid payload,
      on_call_user st sid payload, on_call_accepted st sid payload,
      on_prepare_call st sid payload, on_ready_for_offer st sid payload,
      on_webrtc_offer st sid payload, on_webrtc_answer st sid payload,
      on_webrtc_ice_candidate st sid payload, on_end_call st sid payload, Inr (st, [])}"
  by (simp add: handle_def)

lemma on_new_message_state: "state_after (on_new_message st sid p) = st"
  by (auto simp: on_new_message_def state_after_def split: sum.splits if_splits jsval.splits)

lemma on_signal_state:
  "state_after (on_call_user st sid p) = st"
  "state_after (on_call_accepted st sid p) = st"
  "state_after (on_prepare_call st sid p) = st"
  "state_after (on_ready_for_offer st sid p) = st"
  "state_after (on_webrtc_offer st sid p) = st"
  "state_after (on_webrtc_answer st sid p) = st"
  "state_after (on_webrtc_ice_candidate st sid p) = st"
  "state_after (on_end_call st sid p) = st"
  by (simp_all add: signal_defs state_after_def)

lemma on_setup_state:
  "state_after (on_setup st sid p) = st \<or> (\<exists>r. state_after (on_setup st sid p) = socket_join st sid r)"
  by (auto simp: on_setup_def state_after_def)

lemma on_join_chat_state:
  "state_after (on_join_chat st sid p) = socket_join st sid p"
  by (simp add: on_join_chat_def state_after_def)

lemma handle_state:
  "state_after (handle st sid name payload) = st
     \<or> (\<exists>r. state_after (handle st sid name payload) = socket_join st sid r)"
  using handle_cases [of st sid name payload]
    on_new_message_state [of st sid payload]
    on_signal_state [of st sid payload]
    on_setup_state [of st sid payload]
    on_join_chat_state [of st sid payload]
  by (elim insertE emptyE) (auto simp: state_after_def)

lemma on_setup_string_id:
  assumes "field userData ''_id'' = JStr i" "i \<noteq> []"
  shows "handle st sid ''setup'' userData =
           (if to_string_throws (field userData ''name'')
            then Inl (TypeError, socket_join st sid (JStr i), [])
            else Inr (socket_join st sid (JStr i), [(sid, ''connected'', [])]))"
  using assms by (simp add: handle_setup on_setup_def opt_field_eq socket_emit_def)

section \<open>Well-formed room tables\<close>

lemma wf_distinct_fst: "wf st \<Longrightarrow> distinct (map fst st)"
  by (simp add: wf_def)

lemma wf_distinct_rooms:
  assumes "wf st" shows "distinct (socket_rooms st sid)"
proof (cases "map_of st sid")
  case None
  then show ?thesis by (simp add: socket_rooms_def)
next
  case (Some rs)
  then have "(sid, rs) \<in> set st" by (rule map_of_SomeD)
  with assms have "distinct rs" by (auto simp: wf_def list_all_iff)
  with Some show ?thesis by (simp add: socket_rooms_def)
qed

lemma wf_Nil: "wf []"
  by (simp add: wf_def)

lemma wf_connection: "wf st \<Longrightarrow> sid \<notin> fst ` set st \<Longrightarrow> wf (connection st sid)"
  by (simp add: wf_def connection_def)

lemma distinct_fold_add_room:
  "distinct rs \<Longrightarrow> list_all (\<lambda>r. \<not> is_ref r) xs \<Longrightarrow> distinct (fold add_room xs rs)"
  by (induction xs arbitrary: rs) (auto simp: add_room_def)

lemma list_all_socket_join:
  assumes "list_all (\<lambda>r. \<not> is_ref r) (room_args room)"
  shows "list_all (\<lambda>(s, rs). distinct rs \<and> JStr s \<in> set rs) st \<Longrightarrow>
         list_all (\<lambda>(s, rs). distinct rs \<and> JStr s \<in> set rs) (socket_join st sid room)"
  using assms
  by (induction st)
     (auto simp: socket_join_def distinct_fold_add_room set_fold_add_room split: if_splits)

lemma wf_socket_join:
  "wf st \<Longrightarrow> list_all (\<lambda>r. \<not> is_ref r) (room_args room) \<Longrightarrow> wf (socket_join st sid room)"
  by (simp add: wf_def socket_join_fst list_all_socket_join)

lemma wf_disconnect: "wf st \<Longrightarrow> wf (disconnect st sid)"
  by (auto simp: wf_def disconnect_def list_all_iff distinct_map_filter)

lemma concat_singletons:
  "concat (map (\<lambda>r. if P r then [x] else []) rs) = replicate (length (filter P rs)) x"
  by (induction rs) simp_all

lemma received_on_disconnecting:
  assumes "distinct (map fst st)" "list_all (\<lambda>r. \<not> is_ref r) (socket_rooms st sid)"
  shows "received (on_disconnecting st sid) t ''peer-disconnected'' =
           replicate (length (filter (\<lambda>r. r \<noteq> JStr sid \<and> r \<in> set (socket_rooms st t))
                                     (socket_rooms st sid)))
                     [JObj [(''socketId'', JStr sid)]]"
proof -
  have "received (on_disconnecting st sid) t ''peer-disconnected'' =
          concat (map (\<lambda>r. if r \<noteq> JStr sid \<and> r \<in> set (socket_rooms st t)
                            then [[JObj [(''socketId'', JStr sid)]]] else [])
                      (socket_rooms st sid))"
    unfolding on_disconnecting_def received_concat
  proof (rule arg_cong [where f = concat], rule map_cong [OF refl])
    fix r assume "r \<in> set (socket_rooms st sid)"
    with assms(2) have p: "\<not> is_ref r" by (simp add: list_all_iff)
    then have c: "(case r of JObj fs \<Rightarrow> socket_emit sid ''peer-disconnected''
                                          [JObj [(''socketId'', JStr sid)]]
                    | _ \<Rightarrow> io_to_emit st r ''peer-disconnected'' [JObj [(''socketId'', JStr sid)]])
                  = io_to_emit st r ''peer-disconnected'' [JObj [(''socketId'', JStr sid)]]"
      by (cases r) simp_all
    show "received (if r \<noteq> JStr sid
                    then (case r of JObj fs \<Rightarrow> socket_emit sid ''peer-disconnected''
                                                 [JObj [(''socketId'', JStr sid)]]
                          | _ \<Rightarrow> io_to_emit st r ''peer-disconnected''
                                   [JObj [(''socketId'', JStr sid)]])
                    else []) t ''peer-disconnected''
          = (if r \<noteq> JStr sid \<and> r \<in> set (socket_rooms st t)
             then [[JObj [(''socketId'', JStr sid)]]] else [])"
      by (simp add: c received_io_to_emit [OF assms(1) p] received_Nil)
  qed
  then show ?thesis by (simp add: concat_singletons)
qed

lemma on_setup_falsy:
  "\<not> truthy (opt_field userData ''_id'') \<Longrightarrow> handle st sid ''setup'' userData = Inr (st, [])"
  by (simp add: handle_setup on_setup_def)

text \<open>A key that is an array stands, in the broadcast of \<^verbatim>\<open>disconnecting\<close>, for the rooms
  its elements name: a socket that sent \<^verbatim>\<open>join chat\<close> with an array holding the array of
  \<^verbatim>\<open>c1\<close> holds that inner array as a key, and its disconnect is announced to the room
  \<^verbatim>\<open>c1\<close>, which it never joined.\<close>

lemma disconnect_array_room_example:
  "handle [(''s1'', [JStr ''s1'']), (''s2'', [JStr ''s2'', JStr ''c1''])]
     ''s1'' ''join chat'' (JArr [JArr [JStr ''c1'']])
   = Inr ([(''s1'', [JStr ''s1'', JArr [JStr ''c1'']]), (''s2'', [JStr ''s2'', JStr ''c1''])], [])
   \<and> received (on_disconnecting
                [(''s1'', [JStr ''s1'', JArr [JStr ''c1'']]), (''s2'', [JStr ''s2'', JStr ''c1''])]
                ''s1'')
        ''s2'' ''peer-disconnected''
     = [[JObj [(''socketId'', JStr ''s1'')]]]"
  by (simp add: handle_def on_join_chat_def socket_join_def room_args_def add_room_def
        on_disconnecting_def socket_rooms_def io_to_emit_def io_to_def received_def)

section \<open>Setup\<close>

text \<open>
  C7. Handling \<^verbatim>\<open>setup\<close> with a payload that has no \<^verbatim>\<open>_id\<close> changes nothing and emits
  nothing, and with the identity \<^verbatim>\<open>u1\<close> and the name \<^verbatim>\<open>Ann\<close> it puts the socket into
  the room \<^verbatim>\<open>u1\<close> and emits \<^verbatim>\<open>connected\<close> to that socket only. With the same identity and
  a name that cannot be converted to a string, here an object with a property
  \<^verbatim>\<open>toString\<close>, the handler joins the room and then throws a TypeError at the log line:
  no \<^verbatim>\<open>connected\<close> is emitted.
\<close>

theorem setup_crafted_name_throws:
  "handle [(''s1'', [JStr ''s1'']), (''s2'', [JStr ''s2''])] ''s1'' ''setup''
     (JObj [(''name'', JStr ''Ann'')])
   = Inr ([(''s1'', [JStr ''s1'']), (''s2'', [JStr ''s2''])], [])
   \<and> handle [(''s1'', [JStr ''s1'']), (''s2'', [JStr ''s2''])] ''s1'' ''setup''
     (JObj [(''_id'', JStr ''u1''), (''name'', JStr ''Ann'')])
   = Inr ([(''s1'', [JStr ''s1'', JStr ''u1'']), (''s2'', [JStr ''s2''])],
          [(''s1'', ''connected'', [])])
   \<and> handle [(''s1'', [JStr ''s1'']), (''s2'', [JStr ''s2''])] ''s1'' ''setup''
     (JObj [(''_id'', JStr ''u1''), (''name'', JObj [(''toString'', JNum 1)])])
   = Inl (TypeError, [(''s1'', [JStr ''s1'', JStr ''u1'']), (''s2'', [JStr ''s2''])], [])"
  by (simp add: handle_def on_setup_def opt_field_def socket_emit_def socket_join_def
        room_args_def add_room_def)

section \<open>Message fan-out\<close>

text \<open>
  C1. Take a \<^verbatim>\<open>new message\<close> envelope whose sender is the identity \<open>A\<close> and whose
  \<^verbatim>\<open>chat.users\<close> is \<open>[A, B, C]\<close>, in a state where the sockets in the room of \<open>A\<close> are
  \<open>a1\<close> and \<open>a2\<close>, the only socket in the room of \<open>B\<close> is \<open>b1\<close> and the only socket in the
  room of \<open>C\<close> is \<open>c1\<close>. Handling the event leaves the state as it was and delivers
  \<^verbatim>\<open>message received\<close>, with the envelope, to \<open>b1\<close> and to \<open>c1\<close> and to nobody else; no
  socket of \<open>A\<close> receives it.
\<close>

theorem new_message_fanout_excludes_sender:
  assumes shape: "field (field message ''chat'') ''users'' = JArr [uA, uB, uC]"
      "field uA ''_id'' = JStr A" "field uB ''_id'' = JStr B" "field uC ''_id'' = JStr C"
      "field (field message ''sender'') ''_id'' = JStr A"
    and ids: "A \<noteq> B" "A \<noteq> C"
    and bound: "set (io_to st (JStr A)) = {a1, a2}" "io_to st (JStr B) = [b1]"
      "io_to st (JStr C) = [c1]"
    and sessions: "b1 \<notin> {a1, a2}" "c1 \<notin> {a1, a2}"
  shows "handle st s ''new message'' message =
           Inr (st, [(b1, ''message received'', [message]), (c1, ''message received'', [message])])
         \<and> recipients [(b1, ''message received'', [message]), (c1, ''message received'', [message])]
              ''message received'' = {b1, c1}
         \<and> (\<forall>a \<in> set (io_to st (JStr A)).
               received [(b1, ''message received'', [message]), (c1, ''message received'', [message])]
                 a ''message received'' = [])"
proof -
  have s: "\<not> nullish (field message ''sender'')"
    using shape(5) by (rule field_str_not_nullish)
  have u: "\<forall>u \<in> set [uA, uB, uC]. \<exists>i. field u ''_id'' = JStr i"
    using shape(2-4) by simp
  have "handle st s ''new message'' message =
          Inr (st, [(b1, ''message received'', [message]), (c1, ''message received'', [message])])"
    using on_new_message_ok [OF shape(1) s u, of st s] shape(2-5) ids bound
    by (simp add: io_to_emit_def)
  moreover have "recipients [(b1, ''message received'', [message]), (c1, ''message received'', [message])]
              ''message received'' = {b1, c1}"
    by (simp add: recipients_def)
  moreover have "\<forall>a \<in> set (io_to st (JStr A)).
               received [(b1, ''message received'', [message]), (c1, ''message received'', [message])]
                 a ''message received'' = []"
    using bound(1) sessions by (auto simp: received_def)
  ultimately show ?thesis by blast
qed

theorem new_message_fanout_excludes_sender_witness:
  "handle [(''a1'', [JStr ''a1'', JStr ''A'']), (''a2'', [JStr ''a2'', JStr ''A'']),
           (''b1'', [JStr ''b1'', JStr ''B'']), (''c1'', [JStr ''c1'', JStr ''C''])]
     ''a1'' ''new message''
     (JObj [(''chat'', JObj [(''users'', JArr [JObj [(''_id'', JStr ''A'')],
                                               JObj [(''_id'', JStr ''B'')],
                                               JObj [(''_id'', JStr ''C'')]])]),
            (''sender'', JObj [(''_id'', JStr ''A'')]),
            (''content'', JStr ''hi'')])
   = Inr ([(''a1'', [JStr ''a1'', JStr ''A'']), (''a2'', [JStr ''a2'', JStr ''A'']),
           (''b1'', [JStr ''b1'', JStr ''B'']), (''c1'', [JStr ''c1'', JStr ''C''])],
          [(''b1'', ''message received'',
            [JObj [(''chat'', JObj [(''users'', JArr [JObj [(''_id'', JStr ''A'')],
                                                      JObj [(''_id'', JStr ''B'')],
                                                      JObj [(''_id'', JStr ''C'')]])]),
                   (''sender'', JObj [(''_id'', JStr ''A'')]),
                   (''content'', JStr ''hi'')]]),
           (''c1'', ''message received'',
            [JObj [(''chat'', JObj [(''users'', JArr [JObj [(''_id'', JStr ''A'')],
                                                      JObj [(''_id'', JStr ''B'')],
                                                      JObj [(''_id'', JStr ''C'')]])]),
                   (''sender'', JObj [(''_id'', JStr ''A'')]),
                   (''content'', JStr ''hi'')]])])"
proof -
  let ?st = "[(''a1'', [JStr ''a1'', JStr ''A'']), (''a2'', [JStr ''a2'', JStr ''A'']),
              (''b1'', [JStr ''b1'', JStr ''B'']), (''c1'', [JStr ''c1'', JStr ''C''])]"
  let ?uA = "JObj [(''_id'', JStr ''A'')]"
  let ?uB = "JObj [(''_id'', JStr ''B'')]"
  let ?uC = "JObj [(''_id'', JStr ''C'')]"
  let ?m = "JObj [(''chat'', JObj [(''users'', JArr [?uA, ?uB, ?uC])]),
                  (''sender'', JObj [(''_id'', JStr ''A'')]),
                  (''content'', JStr ''hi'')]"
  have h1: "field (field ?m ''chat'') ''users'' = JArr [?uA, ?uB, ?uC]" by simp
  have h2: "field ?uA ''_id'' = JStr ''A''" by simp
  have h3: "field ?uB ''_id'' = JStr ''B''" by simp
  have h4: "field ?uC ''_id'' = JStr ''C''" by simp
  have h5: "field (field ?m ''sender'') ''_id'' = JStr ''A''" by simp
  have h6: "''A'' \<noteq> ''B''" by simp
  have h7: "''A'' \<noteq> ''C''" by simp
  have h8: "set (io_to ?st (JStr ''A'')) = {''a1'', ''a2''}" by (simp add: io_to_def room_args_def)
  have h9: "io_to ?st (JStr ''B'') = [''b1'']" by (simp add: io_to_def room_args_def)
  have h10: "io_to ?st (JStr ''C'') = [''c1'']" by (simp add: io_to_def room_args_def)
  have h11: "''b1'' \<notin> {''a1'', ''a2''}" by simp
  have h12: "''c1'' \<notin> {''a1'', ''a2''}" by simp
  from new_message_fanout_excludes_sender [OF h1 h2 h3 h4 h5 h6 h7 h8 h9 h10 h11 h12, of "''a1''"]
  show ?thesis by blast
qed

text \<open>
  C9, as the code has it. For an envelope whose listed users have strings as \<^verbatim>\<open>_id\<close>,
  the receivers of \<^verbatim>\<open>message received\<close> are exactly the sockets that are in the room named
  by the \<^verbatim>\<open>_id\<close> of some listed user other than the sender, however they came to be in
  it: \<^verbatim>\<open>setup\<close> and \<^verbatim>\<open>join chat\<close> both join a room, and the handler cannot tell them
  apart. The room of the chat itself is never addressed. So a socket in the room of such
  a user receives the message although it is not in the room of the chat, and a socket in
  the room of the chat that is in the room of no listed user other than the sender
  receives nothing. The counterexample is a socket bound to \<^verbatim>\<open>u3\<close>, in the room of the
  chat, that sends \<^verbatim>\<open>join chat\<close> with the id \<^verbatim>\<open>u2\<close> of a listed user and then receives
  the message.
\<close>

theorem new_message_addresses_user_rooms:
  assumes "distinct (map fst st)"
    and "field (field message ''chat'') ''users'' = JArr users"
    and "\<not> nullish (field message ''sender'')"
    and "\<forall>u \<in> set users. \<exists>i. field u ''_id'' = JStr i"
  shows "\<exists>ds. handle st s ''new message'' message = Inr (st, ds)
           \<and> (\<forall>t. t \<in> recipients ds ''message received'' \<longleftrightarrow>
                   (\<exists>u \<in> set users. field u ''_id'' \<noteq> field (field message ''sender'') ''_id''
                                    \<and> field u ''_id'' \<in> set (socket_rooms st t)))
           \<and> (\<forall>t u. u \<in> set users \<and> field u ''_id'' \<noteq> field (field message ''sender'') ''_id''
                     \<and> field u ''_id'' \<in> set (socket_rooms st t)
                     \<and> field (field message ''chat'') ''_id'' \<notin> set (socket_rooms st t)
                   \<longrightarrow> t \<in> recipients ds ''message received'')
           \<and> (\<forall>t. field (field message ''chat'') ''_id'' \<in> set (socket_rooms st t)
                   \<and> (\<forall>u \<in> set users. field u ''_id'' \<noteq> field (field message ''sender'') ''_id''
                                       \<longrightarrow> field u ''_id'' \<notin> set (socket_rooms st t))
                   \<longrightarrow> received ds t ''message received'' = [])"
proof -
  let ?ds = "concat (map (\<lambda>u. if field u ''_id'' = field (field message ''sender'') ''_id''
                                        then []
                                        else io_to_emit st (field u ''_id'') ''message received'' [message])
                                  users)"
  have h: "handle st s ''new message'' message = Inr (st, ?ds)"
    using assms(2-4) by (rule on_new_message_ok)
  have m: "t \<in> set (io_to st (field u ''_id'')) \<longleftrightarrow> field u ''_id'' \<in> set (socket_rooms st t)"
    if "u \<in> set users" for t u
  proof -
    from that assms(4) obtain i where "field u ''_id'' = JStr i" by auto
    then show ?thesis using io_to_rooms [OF assms(1), of "JStr i" t] by simp
  qed
  have r: "\<And>t. t \<in> recipients ?ds ''message received'' \<longleftrightarrow>
                   (\<exists>u \<in> set users. field u ''_id'' \<noteq> field (field message ''sender'') ''_id''
                                    \<and> field u ''_id'' \<in> set (socket_rooms st t))"
    using m by (auto simp: fanout_recipients)
  have n: "\<And>t. (\<forall>u \<in> set users. field u ''_id'' \<noteq> field (field message ''sender'') ''_id''
                                       \<longrightarrow> field u ''_id'' \<notin> set (socket_rooms st t))
             \<Longrightarrow> received ?ds t ''message received'' = []"
    using r recipients_received by blast
  show ?thesis
    apply (rule exI [of _ ?ds])
    using h r n by blast
qed

theorem new_message_addresses_user_rooms_witness:
  "\<exists>ds. handle [(''s1'', [JStr ''s1'', JStr ''u1'', JStr ''c1'']), (''s2'', [JStr ''s2'', JStr ''u2'']),
                 (''s3'', [JStr ''s3'', JStr ''u3'', JStr ''c1''])]
           ''s1'' ''new message''
           (JObj [(''chat'', JObj [(''_id'', JStr ''c1''),
                                   (''users'', JArr [JObj [(''_id'', JStr ''u1'')],
                                                     JObj [(''_id'', JStr ''u2'')]])]),
                  (''sender'', JObj [(''_id'', JStr ''u1'')]),
                  (''content'', JStr ''hi'')])
         = Inr ([(''s1'', [JStr ''s1'', JStr ''u1'', JStr ''c1'']), (''s2'', [JStr ''s2'', JStr ''u2'']),
                 (''s3'', [JStr ''s3'', JStr ''u3'', JStr ''c1''])], ds)
       \<and> ''s2'' \<in> recipients ds ''message received''
       \<and> received ds ''s3'' ''message received'' = []"
proof -
  let ?st = "[(''s1'', [JStr ''s1'', JStr ''u1'', JStr ''c1'']), (''s2'', [JStr ''s2'', JStr ''u2'']),
              (''s3'', [JStr ''s3'', JStr ''u3'', JStr ''c1''])]"
  let ?us = "[JObj [(''_id'', JStr ''u1'')], JObj [(''_id'', JStr ''u2'')]]"
  let ?m = "JObj [(''chat'', JObj [(''_id'', JStr ''c1''), (''users'', JArr ?us)]),
                  (''sender'', JObj [(''_id'', JStr ''u1'')]),
                  (''content'', JStr ''hi'')]"
  have h1: "distinct (map fst ?st)" by simp
  have h2: "field (field ?m ''chat'') ''users'' = JArr ?us" by simp
  have h3: "\<not> nullish (field ?m ''sender'')" by simp
  have h4: "\<forall>u \<in> set ?us. \<exists>i. field u ''_id'' = JStr i" by simp
  from new_message_addresses_user_rooms [OF h1 h2 h3 h4, of "''s1''"]
  obtain ds where d: "handle ?st ''s1'' ''new message'' ?m = Inr (?st, ds)"
    and a: "\<forall>t u. u \<in> set ?us \<and> field u ''_id'' \<noteq> field (field ?m ''sender'') ''_id''
                     \<and> field u ''_id'' \<in> set (socket_rooms ?st t)
                     \<and> field (field ?m ''chat'') ''_id'' \<notin> set (socket_rooms ?st t)
                   \<longrightarrow> t \<in> recipients ds ''message received''"
    and b: "\<forall>t. field (field ?m ''chat'') ''_id'' \<in> set (socket_rooms ?st t)
                   \<and> (\<forall>u \<in> set ?us. field u ''_id'' \<noteq> field (field ?m ''sender'') ''_id''
                                       \<longrightarrow> field u ''_id'' \<notin> set (socket_rooms ?st t))
                   \<longrightarrow> received ds t ''message received'' = []"
    by blast
  have "''s2'' \<in> recipients ds ''message received''"
    using a [rule_format, of "JObj [(''_id'', JStr ''u2'')]" "''s2''"]
    by (simp add: socket_rooms_def)
  moreover have "received ds ''s3'' ''message received'' = []"
    using b [rule_format, of "''s3''"] by (simp add: socket_rooms_def)
  ultimately show ?thesis using d by blast
qed

theorem join_chat_user_room_counterexample:
  "handle [(''s1'', [JStr ''s1'', JStr ''u1'']), (''s2'', [JStr ''s2'', JStr ''u2'']),
           (''s3'', [JStr ''s3'', JStr ''u3'', JStr ''c1''])]
     ''s3'' ''join chat'' (JStr ''u2'')
   = Inr ([(''s1'', [JStr ''s1'', JStr ''u1'']), (''s2'', [JStr ''s2'', JStr ''u2'']),
           (''s3'', [JStr ''s3'', JStr ''u3'', JStr ''c1'', JStr ''u2''])], [])
   \<and> handle [(''s1'', [JStr ''s1'', JStr ''u1'']), (''s2'', [JStr ''s2'', JStr ''u2'']),
             (''s3'', [JStr ''s3'', JStr ''u3'', JStr ''c1'', JStr ''u2''])]
     ''s1'' ''new message''
     (JObj [(''chat'', JObj [(''_id'', JStr ''c1''),
                             (''users'', JArr [JObj [(''_id'', JStr ''u1'')],
                                               JObj [(''_id'', JStr ''u2'')]])]),
            (''sender'', JObj [(''_id'', JStr ''u1'')])])
   = Inr ([(''s1'', [JStr ''s1'', JStr ''u1'']), (''s2'', [JStr ''s2'', JStr ''u2'']),
           (''s3'', [JStr ''s3'', JStr ''u3'', JStr ''c1'', JStr ''u2''])],
          [(''s2'', ''message received'',
            [JObj [(''chat'', JObj [(''_id'', JStr ''c1''),
                                    (''users'', JArr [JObj [(''_id'', JStr ''u1'')],
                                                      JObj [(''_id'', JStr ''u2'')]])]),
                   (''sender'', JObj [(''_id'', JStr ''u1'')])]]),
           (''s3'', ''message received'',
            [JObj [(''chat'', JObj [(''_id'', JStr ''c1''),
                                    (''users'', JArr [JObj [(''_id'', JStr ''u1'')],
                                                      JObj [(''_id'', JStr ''u2'')]])]),
                   (''sender'', JObj [(''_id'', JStr ''u1'')])]])])"
  by (simp add: handle_def on_join_chat_def socket_join_def room_args_def add_room_def
        on_new_message_def get_field_def opt_field_def strict_eq_def io_to_emit_def io_to_def)

text \<open>
  C5, as the code has it. For an envelope whose listed users have strings as \<^verbatim>\<open>_id\<close>,
  the loop skips the user whose \<^verbatim>\<open>_id\<close> is the sender's, so it never addresses the room
  of the sender's identity: a socket that is in the room of no listed user other than the
  sender receives nothing, and that includes every other tab of the sender. The
  counterexample is the sender \<open>A\<close> with two sockets \<open>a1\<close> and \<open>a2\<close>: a message sent from
  \<open>a1\<close> reaches \<open>b1\<close> only.
\<close>

theorem new_message_skips_every_sender_session:
  assumes "distinct (map fst st)"
    and "field (field message ''chat'') ''users'' = JArr users"
    and "field (field message ''sender'') ''_id'' = JStr A"
    and "\<forall>u \<in> set users. \<exists>i. field u ''_id'' = JStr i"
    and "\<forall>u \<in> set users. field u ''_id'' \<in> set (socket_rooms st t) \<longrightarrow> field u ''_id'' = JStr A"
  shows "\<exists>ds. handle st s ''new message'' message = Inr (st, ds)
              \<and> received ds t ''message received'' = []"
proof -
  let ?ds = "concat (map (\<lambda>u. if field u ''_id'' = field (field message ''sender'') ''_id''
                                        then []
                                        else io_to_emit st (field u ''_id'') ''message received'' [message])
                                  users)"
  have s: "\<not> nullish (field message ''sender'')"
    using assms(3) by (rule field_str_not_nullish)
  have h: "handle st s ''new message'' message = Inr (st, ?ds)"
    using assms(2) s assms(4) by (rule on_new_message_ok)
  have m: "t \<in> set (io_to st (field u ''_id'')) \<longleftrightarrow> field u ''_id'' \<in> set (socket_rooms st t)"
    if "u \<in> set users" for u
  proof -
    from that assms(4) obtain i where "field u ''_id'' = JStr i" by auto
    then show ?thesis using io_to_rooms [OF assms(1), of "JStr i" t] by simp
  qed
  have "t \<notin> recipients ?ds ''message received''"
    using assms(3,5) m by (auto simp: fanout_recipients)
  then have "received ?ds t ''message received'' = []"
    by (simp add: recipients_received)
  with h show ?thesis by blast
qed

theorem new_message_skips_every_sender_session_witness:
  "\<exists>ds. handle [(''a1'', [JStr ''a1'', JStr ''A'']), (''a2'', [JStr ''a2'', JStr ''A'']),
                 (''b1'', [JStr ''b1'', JStr ''B''])]
           ''a1'' ''new message''
           (JObj [(''chat'', JObj [(''users'', JArr [JObj [(''_id'', JStr ''A'')],
                                                     JObj [(''_id'', JStr ''B'')]])]),
                  (''sender'', JObj [(''_id'', JStr ''A'')])])
         = Inr ([(''a1'', [JStr ''a1'', JStr ''A'']), (''a2'', [JStr ''a2'', JStr ''A'']),
                 (''b1'', [JStr ''b1'', JStr ''B''])], ds)
       \<and> received ds ''a2'' ''message received'' = []"
proof -
  let ?st = "[(''a1'', [JStr ''a1'', JStr ''A'']), (''a2'', [JStr ''a2'', JStr ''A'']),
              (''b1'', [JStr ''b1'', JStr ''B''])]"
  let ?us = "[JObj [(''_id'', JStr ''A'')], JObj [(''_id'', JStr ''B'')]]"
  let ?m = "JObj [(''chat'', JObj [(''users'', JArr ?us)]),
                  (''sender'', JObj [(''_id'', JStr ''A'')])]"
  have h1: "distinct (map fst ?st)" by simp
  have h2: "field (field ?m ''chat'') ''users'' = JArr ?us" by simp
  have h3: "field (field ?m ''sender'') ''_id'' = JStr ''A''" by simp
  have h4: "\<forall>u \<in> set ?us. \<exists>i. field u ''_id'' = JStr i" by simp
  have h5: "\<forall>u \<in> set ?us. field u ''_id'' \<in> set (socket_rooms ?st ''a2'')
               \<longrightarrow> field u ''_id'' = JStr ''A''"
    by (simp add: socket_rooms_def)
  from new_message_skips_every_sender_session [OF h1 h2 h3 h4 h5, of "''a1''"]
  show ?thesis .
qed

theorem sender_other_tab_counterexample:
  "handle [(''a1'', [JStr ''a1'', JStr ''A'']), (''a2'', [JStr ''a2'', JStr ''A'']),
           (''b1'', [JStr ''b1'', JStr ''B''])]
     ''a1'' ''new message''
     (JObj [(''chat'', JObj [(''users'', JArr [JObj [(''_id'', JStr ''A'')],
                                               JObj [(''_id'', JStr ''B'')]])]),
            (''sender'', JObj [(''_id'', JStr ''A'')])])
   = Inr ([(''a1'', [JStr ''a1'', JStr ''A'']), (''a2'', [JStr ''a2'', JStr ''A'']),
           (''b1'', [JStr ''b1'', JStr ''B''])],
          [(''b1'', ''message received'',
            [JObj [(''chat'', JObj [(''users'', JArr [JObj [(''_id'', JStr ''A'')],
                                                      JObj [(''_id'', JStr ''B'')]])]),
                   (''sender'', JObj [(''_id'', JStr ''A'')])]])])
   \<and> received [(''b1'', ''message received'',
            [JObj [(''chat'', JObj [(''users'', JArr [JObj [(''_id'', JStr ''A'')],
                                                      JObj [(''_id'', JStr ''B'')]])]),
                   (''sender'', JObj [(''_id'', JStr ''A'')])]])]
        ''a2'' ''message received'' = []"
  by (simp add: handle_def on_new_message_def get_field_def opt_field_def strict_eq_def
        io_to_emit_def io_to_def room_args_def received_def)

section \<open>Call signalling\<close>

text \<open>
  C2. A \<^verbatim>\<open>call-user\<close> event whose \<^verbatim>\<open>to\<close> is the identity \<open>B\<close> is delivered as
  \<^verbatim>\<open>incoming-call\<close>, carrying the \<^verbatim>\<open>from\<close>, \<^verbatim>\<open>name\<close> and \<^verbatim>\<open>callType\<close> of the
  event, exactly once to every socket that is in the room of \<open>B\<close>, that is to every
  session that was bound to \<open>B\<close> by \<^verbatim>\<open>setup\<close>, however many there are; the receivers are
  exactly those sockets.
\<close>

theorem call_user_reaches_every_session:
  assumes "distinct (map fst st)" and "field data ''to'' = JStr B"
  shows "\<exists>ds. handle st s ''call-user'' data = Inr (st, ds)
           \<and> recipients ds ''incoming-call'' = {b. JStr B \<in> set (socket_rooms st b)}
           \<and> (\<forall>b. JStr B \<in> set (socket_rooms st b) \<longrightarrow>
                  received ds b ''incoming-call'' =
                    [[JObj [(''from'', field data ''from''), (''name'', field data ''name''),
                            (''callType'', field data ''callType'')]]])"
proof -
  let ?p = "JObj [(''from'', field data ''from''), (''name'', field data ''name''),
                  (''callType'', field data ''callType'')]"
  let ?ds = "io_to_emit st (JStr B) ''incoming-call'' [?p]"
  have "\<not> nullish data" using assms(2) by (rule field_str_not_nullish)
  then have h: "handle st s ''call-user'' data = Inr (st, ?ds)"
    using assms(2) by (simp add: handle_call_user on_call_user_def)
  have r: "recipients ?ds ''incoming-call'' = {b. JStr B \<in> set (socket_rooms st b)}"
    using io_to_rooms [OF assms(1), of "JStr B"] by (auto simp: recipients_io_to_emit)
  have e: "\<forall>b. JStr B \<in> set (socket_rooms st b) \<longrightarrow> received ?ds b ''incoming-call'' = [[?p]]"
    by (simp add: received_io_to_emit [OF assms(1)])
  from h r e show ?thesis by blast
qed

theorem call_user_reaches_every_session_witness:
  "\<exists>ds. handle [(''a1'', [JStr ''a1'', JStr ''A'']), (''b1'', [JStr ''b1'', JStr ''B'']),
                 (''b2'', [JStr ''b2'', JStr ''B''])]
           ''a1'' ''call-user''
           (JObj [(''to'', JStr ''B''), (''from'', JStr ''A''), (''name'', JStr ''Ann''),
                  (''callType'', JStr ''video'')])
         = Inr ([(''a1'', [JStr ''a1'', JStr ''A'']), (''b1'', [JStr ''b1'', JStr ''B'']),
                 (''b2'', [JStr ''b2'', JStr ''B''])], ds)
       \<and> received ds ''b1'' ''incoming-call''
           = [[JObj [(''from'', JStr ''A''), (''name'', JStr ''Ann''), (''callType'', JStr ''video'')]]]
       \<and> received ds ''b2'' ''incoming-call''
           = [[JObj [(''from'', JStr ''A''), (''name'', JStr ''Ann''), (''callType'', JStr ''video'')]]]"
proof -
  let ?st = "[(''a1'', [JStr ''a1'', JStr ''A'']), (''b1'', [JStr ''b1'', JStr ''B'']),
              (''b2'', [JStr ''b2'', JStr ''B''])]"
  let ?d = "JObj [(''to'', JStr ''B''), (''from'', JStr ''A''), (''name'', JStr ''Ann''),
                  (''callType'', JStr ''video'')]"
  have h1: "distinct (map fst ?st)" by simp
  have h2: "field ?d ''to'' = JStr ''B''" by simp
  from call_user_reaches_every_session [OF h1 h2, of "''a1''"]
  obtain ds where d: "handle ?st ''a1'' ''call-user'' ?d = Inr (?st, ds)"
    and e: "\<forall>b. JStr ''B'' \<in> set (socket_rooms ?st b) \<longrightarrow>
                  received ds b ''incoming-call'' =
                    [[JObj [(''from'', field ?d ''from''), (''name'', field ?d ''name''),
                            (''callType'', field ?d ''callType'')]]]"
    by blast
  have "received ds ''b1'' ''incoming-call''
           = [[JObj [(''from'', JStr ''A''), (''name'', JStr ''Ann''), (''callType'', JStr ''video'')]]]"
    using e [rule_format, of "''b1''"] by (simp add: socket_rooms_def)
  moreover have "received ds ''b2'' ''incoming-call''
           = [[JObj [(''from'', JStr ''A''), (''name'', JStr ''Ann''), (''callType'', JStr ''video'')]]]"
    using e [rule_format, of "''b2''"] by (simp add: socket_rooms_def)
  ultimately show ?thesis using d by blast
qed

text \<open>
  C8. A call signalling event whose \<^verbatim>\<open>to\<close> is an identity (a string) with no socket in
  its room is delivered to nobody; the handler returns normally and leaves the state as
  it was.
\<close>

theorem unknown_destination_dropped:
  assumes "name \<in> set call_signals" and "field data ''to'' = JStr G"
    and "io_to st (JStr G) = []"
  shows "handle st s name data = Inr (st, [])"
proof -
  have "\<not> nullish data" using assms(2) by (rule field_str_not_nullish)
  from signal_relayed [OF this, of st s] assms(1) obtain ds
    where "handle st s name data = Inr (st, ds)"
      and "fst ` set ds = set (io_to st (field data ''to''))"
    by blast
  with assms(2,3) show ?thesis by simp
qed

theorem unknown_destination_dropped_witness:
  "handle [(''s1'', [JStr ''s1'', JStr ''u1''])] ''s1'' ''call-user''
     (JObj [(''to'', JStr ''ghost''), (''from'', JStr ''u1'')])
   = Inr ([(''s1'', [JStr ''s1'', JStr ''u1''])], [])"
proof -
  have h1: "''call-user'' \<in> set call_signals" by (simp add: call_signals_def)
  have h2: "field (JObj [(''to'', JStr ''ghost''), (''from'', JStr ''u1'')]) ''to'' = JStr ''ghost''"
    by simp
  have h3: "io_to [(''s1'', [JStr ''s1'', JStr ''u1''])] (JStr ''ghost'') = []"
    by (simp add: io_to_def room_args_def)
  from unknown_destination_dropped [OF h1 h2 h3] show ?thesis .
qed

text \<open>
  C6. Relaying a \<^verbatim>\<open>webrtc-offer\<close> from \<open>A\<close> to \<open>B\<close> and then the \<^verbatim>\<open>webrtc-answer\<close> that \<open>B\<close>
  sends back to \<open>A\<close> delivers the answer, exactly once and as it was sent, to every socket
  in the room of \<open>A\<close>: the payload received is the payload sent, so its \<^verbatim>\<open>answer\<close> is \<open>Y\<close>
  and its \<^verbatim>\<open>from\<close> is \<open>B\<close>. The offer reaches every socket of \<open>B\<close> unchanged in the same way.
\<close>

theorem webrtc_answer_round_trip:
  assumes "distinct (map fst st)"
    and "field offer ''to'' = JStr B"
    and "field answer ''to'' = JStr A" "field answer ''from'' = JStr B" "field answer ''answer'' = Y"
  shows "\<exists>ds1 ds2. handle st sa ''webrtc-offer'' offer = Inr (st, ds1)
           \<and> (\<forall>b. JStr B \<in> set (socket_rooms st b) \<longrightarrow> received ds1 b ''webrtc-offer'' = [[offer]])
           \<and> handle st sb ''webrtc-answer'' answer = Inr (st, ds2)
           \<and> (\<forall>a. JStr A \<in> set (socket_rooms st a) \<longrightarrow>
                  (\<exists>p. received ds2 a ''webrtc-answer'' = [[p]] \<and> p = answer
                       \<and> field p ''answer'' = Y \<and> field p ''from'' = JStr B))"
proof -
  let ?ds1 = "io_to_emit st (JStr B) ''webrtc-offer'' [offer]"
  let ?ds2 = "io_to_emit st (JStr A) ''webrtc-answer'' [answer]"
  have "\<not> nullish offer" using assms(2) by (rule field_str_not_nullish)
  then have h1: "handle st sa ''webrtc-offer'' offer = Inr (st, ?ds1)"
    using assms(2) by (simp add: handle_webrtc_offer on_webrtc_offer_def)
  have "\<not> nullish answer" using assms(3) by (rule field_str_not_nullish)
  then have h2: "handle st sb ''webrtc-answer'' answer = Inr (st, ?ds2)"
    using assms(3) by (simp add: handle_webrtc_answer on_webrtc_answer_def)
  have r1: "\<forall>b. JStr B \<in> set (socket_rooms st b) \<longrightarrow> received ?ds1 b ''webrtc-offer'' = [[offer]]"
    by (simp add: received_io_to_emit [OF assms(1)])
  have r2: "\<forall>a. JStr A \<in> set (socket_rooms st a) \<longrightarrow>
                  (\<exists>p. received ?ds2 a ''webrtc-answer'' = [[p]] \<and> p = answer
                       \<and> field p ''answer'' = Y \<and> field p ''from'' = JStr B)"
    using assms(4,5) by (simp add: received_io_to_emit [OF assms(1)])
  from h1 r1 h2 r2 show ?thesis by blast
qed

theorem webrtc_answer_round_trip_witness:
  "\<exists>ds1 ds2.
      handle [(''a1'', [JStr ''a1'', JStr ''A'']), (''a2'', [JStr ''a2'', JStr ''A'']),
              (''b1'', [JStr ''b1'', JStr ''B''])]
        ''a1'' ''webrtc-offer''
        (JObj [(''to'', JStr ''B''), (''from'', JStr ''A''), (''offer'', JObj [(''sdp'', JStr ''x'')])])
      = Inr ([(''a1'', [JStr ''a1'', JStr ''A'']), (''a2'', [JStr ''a2'', JStr ''A'']),
              (''b1'', [JStr ''b1'', JStr ''B''])], ds1)
    \<and> handle [(''a1'', [JStr ''a1'', JStr ''A'']), (''a2'', [JStr ''a2'', JStr ''A'']),
              (''b1'', [JStr ''b1'', JStr ''B''])]
        ''b1'' ''webrtc-answer''
        (JObj [(''to'', JStr ''A''), (''from'', JStr ''B''), (''answer'', JObj [(''sdp'', JStr ''y'')])])
      = Inr ([(''a1'', [JStr ''a1'', JStr ''A'']), (''a2'', [JStr ''a2'', JStr ''A'']),
              (''b1'', [JStr ''b1'', JStr ''B''])], ds2)
    \<and> received ds2 ''a1'' ''webrtc-answer''
        = [[JObj [(''to'', JStr ''A''), (''from'', JStr ''B''), (''answer'', JObj [(''sdp'', JStr ''y'')])]]]
    \<and> received ds2 ''a2'' ''webrtc-answer''
        = [[JObj [(''to'', JStr ''A''), (''from'', JStr ''B''), (''answer'', JObj [(''sdp'', JStr ''y'')])]]]"
proof -
  let ?st = "[(''a1'', [JStr ''a1'', JStr ''A'']), (''a2'', [JStr ''a2'', JStr ''A'']),
              (''b1'', [JStr ''b1'', JStr ''B''])]"
  let ?o = "JObj [(''to'', JStr ''B''), (''from'', JStr ''A''), (''offer'', JObj [(''sdp'', JStr ''x'')])]"
  let ?a = "JObj [(''to'', JStr ''A''), (''from'', JStr ''B''), (''answer'', JObj [(''sdp'', JStr ''y'')])]"
  have h1: "distinct (map fst ?st)" by simp
  have h2: "field ?o ''to'' = JStr ''B''" by simp
  have h3: "field ?a ''to'' = JStr ''A''" by simp
  have h4: "field ?a ''from'' = JStr ''B''" by simp
  have h5: "field ?a ''answer'' = JObj [(''sdp'', JStr ''y'')]" by simp
  from webrtc_answer_round_trip [OF h1 h2 h3 h4 h5, of "''a1''" "''b1''"]
  obtain ds1 ds2 where d1: "handle ?st ''a1'' ''webrtc-offer'' ?o = Inr (?st, ds1)"
    and d2: "handle ?st ''b1'' ''webrtc-answer'' ?a = Inr (?st, ds2)"
    and r: "\<forall>a. JStr ''A'' \<in> set (socket_rooms ?st a) \<longrightarrow>
                  (\<exists>p. received ds2 a ''webrtc-answer'' = [[p]] \<and> p = ?a
                       \<and> field p ''answer'' = JObj [(''sdp'', JStr ''y'')]
                       \<and> field p ''from'' = JStr ''B'')"
    by blast
  have "received ds2 ''a1'' ''webrtc-answer'' = [[?a]]"
    using r [rule_format, of "''a1''"] by (simp add: socket_rooms_def)
  moreover have "received ds2 ''a2'' ''webrtc-answer'' = [[?a]]"
    using r [rule_format, of "''a2''"] by (simp add: socket_rooms_def)
  ultimately show ?thesis using d1 d2 by blast
qed

text \<open>
  C4, as the code has it, for an event that carries a payload. A \<^verbatim>\<open>new message\<close> whose
  envelope has no \<^verbatim>\<open>chat.users\<close> is dropped: nothing is delivered, nothing is thrown. A
  call signalling event whose \<^verbatim>\<open>to\<close> is missing is addressed to the room named
  \<^verbatim>\<open>undefined\<close>, so it is delivered to nobody as long as no socket is in that room. A
  missing \<^verbatim>\<open>from\<close> is not checked at all: with a string as \<^verbatim>\<open>to\<close>, each of the eight
  events is delivered once to every socket in the room \<^verbatim>\<open>to\<close>, under the name and with
  the payload it would have with a \<^verbatim>\<open>from\<close>, which is \<^verbatim>\<open>{from: undefined}\<close> (with the name
  and call type for \<^verbatim>\<open>incoming-call\<close>) for the first four and the payload as sent for
  the others. The counterexample is the \<^verbatim>\<open>ready-for-offer\<close> that the client of this
  repository sends, which has a \<^verbatim>\<open>to\<close> and no \<^verbatim>\<open>from\<close>.
\<close>

theorem malformed_event_handling:
  "(\<not> nullish message \<and> \<not> truthy (field (field message ''chat'') ''users'')
      \<longrightarrow> handle st s ''new message'' message = Inr (st, []))
   \<and> (\<forall>name \<in> set call_signals.
         \<not> nullish data \<and> field data ''to'' = JUndefined \<and> io_to st JUndefined = []
         \<longrightarrow> handle st s name data = Inr (st, []))
   \<and> (field data ''to'' = JStr B \<and> field data ''from'' = JUndefined
      \<longrightarrow> handle st s ''call-user'' data
            = Inr (st, map (\<lambda>b. (b, ''incoming-call'',
                                  [JObj [(''from'', JUndefined), (''name'', field data ''name''),
                                         (''callType'', field data ''callType'')]]))
                           (io_to st (JStr B)))
        \<and> handle st s ''call-accepted'' data
            = Inr (st, map (\<lambda>b. (b, ''call-accepted'', [JObj [(''from'', JUndefined)]]))
                           (io_to st (JStr B)))
        \<and> handle st s ''prepare-call'' data
            = Inr (st, map (\<lambda>b. (b, ''prepare-call'', [JObj [(''from'', JUndefined)]]))
                           (io_to st (JStr B)))
        \<and> handle st s ''ready-for-offer'' data
            = Inr (st, map (\<lambda>b. (b, ''ready-for-offer'', [JObj [(''from'', JUndefined)]]))
                           (io_to st (JStr B)))
        \<and> handle st s ''webrtc-offer'' data
            = Inr (st, map (\<lambda>b. (b, ''webrtc-offer'', [data])) (io_to st (JStr B)))
        \<and> handle st s ''webrtc-answer'' data
            = Inr (st, map (\<lambda>b. (b, ''webrtc-answer'', [data])) (io_to st (JStr B)))
        \<and> handle st s ''webrtc-ice-candidate'' data
            = Inr (st, map (\<lambda>b. (b, ''webrtc-ice-candidate'', [data])) (io_to st (JStr B)))
        \<and> handle st s ''end-call'' data
            = Inr (st, map (\<lambda>b. (b, ''end-call'', [data])) (io_to st (JStr B)))
        \<and> (distinct (map fst st)
             \<longrightarrow> distinct (io_to st (JStr B))
               \<and> set (io_to st (JStr B)) = {b. JStr B \<in> set (socket_rooms st b)}))"
proof -
  have a: "\<not> nullish message \<and> \<not> truthy (field (field message ''chat'') ''users'')
      \<longrightarrow> handle st s ''new message'' message = Inr (st, [])"
    by (simp add: handle_new_message on_new_message_def get_field_def opt_field_eq)
  have b: "\<forall>name \<in> set call_signals.
         \<not> nullish data \<and> field data ''to'' = JUndefined \<and> io_to st JUndefined = []
         \<longrightarrow> handle st s name data = Inr (st, [])"
  proof (intro ballI impI)
    fix name assume n: "name \<in> set call_signals"
      and d: "\<not> nullish data \<and> field data ''to'' = JUndefined \<and> io_to st JUndefined = []"
    from signal_relayed [of data st s] n d obtain ds
      where "handle st s name data = Inr (st, ds)"
        and "fst ` set ds = set (io_to st (field data ''to''))"
      by blast
    with d show "handle st s name data = Inr (st, [])" by simp
  qed
  have c: "handle st s ''call-user'' data
            = Inr (st, map (\<lambda>b. (b, ''incoming-call'',
                                  [JObj [(''from'', JUndefined), (''name'', field data ''name''),
                                         (''callType'', field data ''callType'')]]))
                           (io_to st (JStr B)))
        \<and> handle st s ''call-accepted'' data
            = Inr (st, map (\<lambda>b. (b, ''call-accepted'', [JObj [(''from'', JUndefined)]]))
                           (io_to st (JStr B)))
        \<and> handle st s ''prepare-call'' data
            = Inr (st, map (\<lambda>b. (b, ''prepare-call'', [JObj [(''from'', JUndefined)]]))
                           (io_to st (JStr B)))
        \<and> handle st s ''ready-for-offer'' data
            = Inr (st, map (\<lambda>b. (b, ''ready-for-offer'', [JObj [(''from'', JUndefined)]]))
                           (io_to st (JStr B)))
        \<and> handle st s ''webrtc-offer'' data
            = Inr (st, map (\<lambda>b. (b, ''webrtc-offer'', [data])) (io_to st (JStr B)))
        \<and> handle st s ''webrtc-answer'' data
            = Inr (st, map (\<lambda>b. (b, ''webrtc-answer'', [data])) (io_to st (JStr B)))
        \<and> handle st s ''webrtc-ice-candidate'' data
            = Inr (st, map (\<lambda>b. (b, ''webrtc-ice-candidate'', [data])) (io_to st (JStr B)))
        \<and> handle st s ''end-call'' data
            = Inr (st, map (\<lambda>b. (b, ''end-call'', [data])) (io_to st (JStr B)))
        \<and> (distinct (map fst st)
             \<longrightarrow> distinct (io_to st (JStr B))
               \<and> set (io_to st (JStr B)) = {b. JStr B \<in> set (socket_rooms st b)})"
    if t: "field data ''to'' = JStr B" and f: "field data ''from'' = JUndefined"
  proof -
    have n: "\<not> nullish data" using t by (rule field_str_not_nullish)
    have m: "distinct (map fst st)
             \<longrightarrow> distinct (io_to st (JStr B))
               \<and> set (io_to st (JStr B)) = {b. JStr B \<in> set (socket_rooms st b)}"
    proof
      assume d: "distinct (map fst st)"
      have "set (io_to st (JStr B)) = {b. JStr B \<in> set (socket_rooms st b)}"
        using io_to_rooms [OF d, of "JStr B"] by auto
      with io_to_distinct [OF d]
      show "distinct (io_to st (JStr B))
               \<and> set (io_to st (JStr B)) = {b. JStr B \<in> set (socket_rooms st b)}"
        by simp
    qed
    show ?thesis
      using n t f m by (simp add: handle_signal_simps signal_defs io_to_emit_def)
  qed
  from a b c show ?thesis by blast
qed

theorem malformed_event_handling_witness:
  "handle [(''a1'', [JStr ''a1'', JStr ''A'']), (''b1'', [JStr ''b1'', JStr ''B''])]
     ''a1'' ''new message'' (JObj [(''chat'', JObj [(''_id'', JStr ''c1'')]),
                                  (''sender'', JObj [(''_id'', JStr ''A'')])])
   = Inr ([(''a1'', [JStr ''a1'', JStr ''A'']), (''b1'', [JStr ''b1'', JStr ''B''])], [])
   \<and> handle [(''a1'', [JStr ''a1'', JStr ''A'']), (''b1'', [JStr ''b1'', JStr ''B''])]
     ''a1'' ''end-call'' (JObj [(''from'', JStr ''A'')])
   = Inr ([(''a1'', [JStr ''a1'', JStr ''A'']), (''b1'', [JStr ''b1'', JStr ''B''])], [])
   \<and> handle [(''a1'', [JStr ''a1'', JStr ''A'']), (''b1'', [JStr ''b1'', JStr ''B''])]
     ''a1'' ''call-user'' (JObj [(''to'', JStr ''B''), (''name'', JStr ''Ann'')])
   = Inr ([(''a1'', [JStr ''a1'', JStr ''A'']), (''b1'', [JStr ''b1'', JStr ''B''])],
          [(''b1'', ''incoming-call'',
            [JObj [(''from'', JUndefined), (''name'', JStr ''Ann''), (''callType'', JUndefined)]])])"
proof -
  let ?st = "[(''a1'', [JStr ''a1'', JStr ''A'']), (''b1'', [JStr ''b1'', JStr ''B''])]"
  let ?m = "JObj [(''chat'', JObj [(''_id'', JStr ''c1'')]), (''sender'', JObj [(''_id'', JStr ''A'')])]"
  let ?e = "JObj [(''from'', JStr ''A'')]"
  let ?c = "JObj [(''to'', JStr ''B''), (''name'', JStr ''Ann'')]"
  note m = malformed_event_handling [of ?m ?st "''a1''" ?e "''B''"]
  note n = malformed_event_handling [of ?m ?st "''a1''" ?c "''B''"]
  have 1: "handle ?st ''a1'' ''new message'' ?m = Inr (?st, [])"
    using m by simp
  have "''end-call'' \<in> set call_signals" by (simp add: call_signals_def)
  moreover have "\<not> nullish ?e \<and> field ?e ''to'' = JUndefined \<and> io_to ?st JUndefined = []"
    by (simp add: io_to_def room_args_def)
  ultimately have 2: "handle ?st ''a1'' ''end-call'' ?e = Inr (?st, [])"
    using m by blast
  have t: "field ?c ''to'' = JStr ''B'' \<and> field ?c ''from'' = JUndefined" by simp
  have i: "io_to ?st (JStr ''B'') = [''b1'']" by (simp add: io_to_def room_args_def)
  from n t have "handle ?st ''a1'' ''call-user'' ?c
            = Inr (?st, map (\<lambda>b. (b, ''incoming-call'',
                                  [JObj [(''from'', JUndefined), (''name'', field ?c ''name''),
                                         (''callType'', field ?c ''callType'')]]))
                           (io_to ?st (JStr ''B'')))"
    by blast
  then have 3: "handle ?st ''a1'' ''call-user'' ?c
     = Inr (?st, [(''b1'', ''incoming-call'',
            [JObj [(''from'', JUndefined), (''name'', JStr ''Ann''), (''callType'', JUndefined)]])])"
    by (simp add: i)
  from 1 2 3 show ?thesis by blast
qed

theorem missing_from_counterexample:
  "handle [(''a1'', [JStr ''a1'', JStr ''A'']), (''b1'', [JStr ''b1'', JStr ''B''])]
     ''b1'' ''ready-for-offer'' (JObj [(''to'', JStr ''A'')])
   = Inr ([(''a1'', [JStr ''a1'', JStr ''A'']), (''b1'', [JStr ''b1'', JStr ''B''])],
          [(''a1'', ''ready-for-offer'', [JObj [(''from'', JUndefined)]])])"
  by (simp add: handle_def on_ready_for_offer_def io_to_emit_def io_to_def room_args_def)

section \<open>Room membership\<close>

text \<open>
  C10. No handler of an event sent by a client takes a socket out of a room: whatever the
  event name and the payload, and whether the handler returns or throws, the connected
  sockets are the same afterwards and every socket is in every room it was in before. In
  particular two \<^verbatim>\<open>setup\<close> events on one socket, with the identities \<open>A\<close> and then \<open>B\<close>,
  leave the socket in the rooms of both, and every call signalling event addressed to \<open>A\<close>
  or to \<open>B\<close> afterwards is delivered to it; each \<^verbatim>\<open>setup\<close> is answered with \<^verbatim>\<open>connected\<close>
  when its log line can print the name.
\<close>

theorem rooms_only_grow:
  "(\<forall>st' ds. handle st sid name payload = Inr (st', ds) \<longrightarrow>
       map fst st' = map fst st \<and> (\<forall>s. set (socket_rooms st s) \<subseteq> set (socket_rooms st' s)))
   \<and> (\<forall>e st' ds. handle st sid name payload = Inl (e, st', ds) \<longrightarrow>
       map fst st' = map fst st \<and> (\<forall>s. set (socket_rooms st s) \<subseteq> set (socket_rooms st' s)))
   \<and> (distinct (map fst st) \<and> sid \<in> fst ` set st \<and> A \<noteq> [] \<and> B \<noteq> []
        \<and> field u1 ''_id'' = JStr A \<and> field u2 ''_id'' = JStr B
        \<and> \<not> to_string_throws (field u1 ''name'') \<and> \<not> to_string_throws (field u2 ''name'')
      \<longrightarrow> (\<exists>st1 st2. handle st sid ''setup'' u1 = Inr (st1, [(sid, ''connected'', [])])
             \<and> handle st1 sid ''setup'' u2 = Inr (st2, [(sid, ''connected'', [])])
             \<and> JStr A \<in> set (socket_rooms st2 sid) \<and> JStr B \<in> set (socket_rooms st2 sid)
             \<and> (\<forall>name \<in> set call_signals. \<forall>data.
                   field data ''to'' = JStr A \<or> field data ''to'' = JStr B
                   \<longrightarrow> (\<exists>ds. handle st2 s name data = Inr (st2, ds) \<and> sid \<in> fst ` set ds))))
   \<and> (distinct (map fst st) \<and> sid \<in> fst ` set st \<and> A \<noteq> [] \<and> B \<noteq> []
        \<and> field u1 ''_id'' = JStr A \<and> field u2 ''_id'' = JStr B
      \<longrightarrow> (\<exists>st1 st2. st1 = state_after (handle st sid ''setup'' u1)
             \<and> st2 = state_after (handle st1 sid ''setup'' u2)
             \<and> JStr A \<in> set (socket_rooms st2 sid) \<and> JStr B \<in> set (socket_rooms st2 sid)
             \<and> (\<forall>name \<in> set call_signals. \<forall>data.
                   field data ''to'' = JStr A \<or> field data ''to'' = JStr B
                   \<longrightarrow> (\<exists>ds. handle st2 s name data = Inr (st2, ds) \<and> sid \<in> fst ` set ds))))"
proof -
  have grow: "map fst (state_after (handle st sid name payload)) = map fst st
       \<and> (\<forall>s. set (socket_rooms st s)
                \<subseteq> set (socket_rooms (state_after (handle st sid name payload)) s))"
  proof -
    from handle_state [of st sid name payload]
    consider "state_after (handle st sid name payload) = st"
      | r where "state_after (handle st sid name payload) = socket_join st sid r"
      by blast
    then show ?thesis
    proof cases
      case 1
      then show ?thesis by simp
    next
      case 2
      then show ?thesis
        using socket_rooms_join_mono [of st _ sid r] by (simp add: socket_join_fst)
    qed
  qed
  have ret: "\<forall>st' ds. handle st sid name payload = Inr (st', ds) \<longrightarrow>
       map fst st' = map fst st \<and> (\<forall>s. set (socket_rooms st s) \<subseteq> set (socket_rooms st' s))"
  proof (intro allI impI)
    fix st' ds assume "handle st sid name payload = Inr (st', ds)"
    then have "state_after (handle st sid name payload) = st'" by (simp add: state_after_def)
    with grow show "map fst st' = map fst st
                    \<and> (\<forall>s. set (socket_rooms st s) \<subseteq> set (socket_rooms st' s))"
      by simp
  qed
  have thr: "\<forall>e st' ds. handle st sid name payload = Inl (e, st', ds) \<longrightarrow>
       map fst st' = map fst st \<and> (\<forall>s. set (socket_rooms st s) \<subseteq> set (socket_rooms st' s))"
  proof (intro allI impI)
    fix e st' ds assume "handle st sid name payload = Inl (e, st', ds)"
    then have "state_after (handle st sid name payload) = st'" by (simp add: state_after_def)
    with grow show "map fst st' = map fst st
                    \<and> (\<forall>s. set (socket_rooms st s) \<subseteq> set (socket_rooms st' s))"
      by simp
  qed
  let ?st1 = "socket_join st sid (JStr A)"
  let ?st2 = "socket_join ?st1 sid (JStr B)"
  have both: "JStr A \<in> set (socket_rooms ?st2 sid) \<and> JStr B \<in> set (socket_rooms ?st2 sid)
             \<and> (\<forall>name \<in> set call_signals. \<forall>data.
                   field data ''to'' = JStr A \<or> field data ''to'' = JStr B
                   \<longrightarrow> (\<exists>ds. handle ?st2 s name data = Inr (?st2, ds) \<and> sid \<in> fst ` set ds))"
    if h: "distinct (map fst st)" "sid \<in> fst ` set st"
  proof -
    have c1: "sid \<in> fst ` set ?st1"
      using h(2) socket_join_fst [of st sid "JStr A"] by (metis set_map)
    have d2: "distinct (map fst ?st2)" using h(1) by (simp add: socket_join_fst)
    have a1: "JStr A \<in> set (socket_rooms ?st1 sid)"
      using h(2) by (simp add: socket_rooms_join_self room_args_def)
    have a: "JStr A \<in> set (socket_rooms ?st2 sid)"
      using a1 socket_rooms_join_mono [of ?st1 sid sid "JStr B"] by blast
    have b: "JStr B \<in> set (socket_rooms ?st2 sid)"
      using c1 by (simp add: socket_rooms_join_self room_args_def)
    have t: "\<forall>name \<in> set call_signals. \<forall>data.
                   field data ''to'' = JStr A \<or> field data ''to'' = JStr B
                   \<longrightarrow> (\<exists>ds. handle ?st2 s name data = Inr (?st2, ds) \<and> sid \<in> fst ` set ds)"
    proof (intro ballI allI impI)
      fix name data assume n: "name \<in> set call_signals"
        and to: "field data ''to'' = JStr A \<or> field data ''to'' = JStr B"
      from to have "\<not> nullish data" using field_str_not_nullish [of data "''to''"] by blast
      from signal_relayed [OF this, of ?st2 s] n obtain ds
        where ds: "handle ?st2 s name data = Inr (?st2, ds)"
          "fst ` set ds = set (io_to ?st2 (field data ''to''))"
        by blast
      from to a b have m: "field data ''to'' \<in> set (socket_rooms ?st2 sid)" by auto
      from to have p: "\<not> is_ref (field data ''to'')" by auto
      from m have "sid \<in> set (io_to ?st2 (field data ''to''))"
        by (simp add: io_to_rooms [OF d2 p])
      with ds show "\<exists>ds. handle ?st2 s name data = Inr (?st2, ds) \<and> sid \<in> fst ` set ds"
        by blast
    qed
    from a b t show ?thesis by blast
  qed
  have twice: "\<exists>st1 st2. handle st sid ''setup'' u1 = Inr (st1, [(sid, ''connected'', [])])
             \<and> handle st1 sid ''setup'' u2 = Inr (st2, [(sid, ''connected'', [])])
             \<and> JStr A \<in> set (socket_rooms st2 sid) \<and> JStr B \<in> set (socket_rooms st2 sid)
             \<and> (\<forall>name \<in> set call_signals. \<forall>data.
                   field data ''to'' = JStr A \<or> field data ''to'' = JStr B
                   \<longrightarrow> (\<exists>ds. handle st2 s name data = Inr (st2, ds) \<and> sid \<in> fst ` set ds))"
    if h: "distinct (map fst st)" "sid \<in> fst ` set st" "A \<noteq> []" "B \<noteq> []"
      "field u1 ''_id'' = JStr A" "field u2 ''_id'' = JStr B"
      "\<not> to_string_throws (field u1 ''name'')" "\<not> to_string_throws (field u2 ''name'')"
  proof -
    have s1: "handle st sid ''setup'' u1 = Inr (?st1, [(sid, ''connected'', [])])"
      using on_setup_string_id [OF h(5) h(3), of st sid] h(7) by simp
    have s2: "handle ?st1 sid ''setup'' u2 = Inr (?st2, [(sid, ''connected'', [])])"
      using on_setup_string_id [OF h(6) h(4), of ?st1 sid] h(8) by simp
    from s1 s2 both [OF h(1,2)] show ?thesis by blast
  qed
  have left: "\<exists>st1 st2. st1 = state_after (handle st sid ''setup'' u1)
             \<and> st2 = state_after (handle st1 sid ''setup'' u2)
             \<and> JStr A \<in> set (socket_rooms st2 sid) \<and> JStr B \<in> set (socket_rooms st2 sid)
             \<and> (\<forall>name \<in> set call_signals. \<forall>data.
                   field data ''to'' = JStr A \<or> field data ''to'' = JStr B
                   \<longrightarrow> (\<exists>ds. handle st2 s name data = Inr (st2, ds) \<and> sid \<in> fst ` set ds))"
    if h: "distinct (map fst st)" "sid \<in> fst ` set st" "A \<noteq> []" "B \<noteq> []"
      "field u1 ''_id'' = JStr A" "field u2 ''_id'' = JStr B"
  proof -
    have s1: "state_after (handle st sid ''setup'' u1) = ?st1"
      using on_setup_string_id [OF h(5) h(3), of st sid] by (simp add: state_after_def)
    have s2: "state_after (handle ?st1 sid ''setup'' u2) = ?st2"
      using on_setup_string_id [OF h(6) h(4), of ?st1 sid] by (simp add: state_after_def)
    from s1 s2 both [OF h(1,2)] show ?thesis by simp
  qed
  from ret thr twice left show ?thesis by blast
qed

theorem rooms_only_grow_witness:
  "set (socket_rooms [(''s1'', [JStr ''s1'', JStr ''u1''])] ''s1'')
     \<subseteq> set (socket_rooms [(''s1'', [JStr ''s1'', JStr ''u1'', JStr ''c1''])] ''s1'')
   \<and> (\<exists>st2. handle [(''s1'', [JStr ''s1'', JStr ''u1''])] ''s1'' ''setup''
                (JObj [(''_id'', JStr ''u2'')]) = Inr (st2, [(''s1'', ''connected'', [])])
           \<and> JStr ''u1'' \<in> set (socket_rooms st2 ''s1'')
           \<and> JStr ''u2'' \<in> set (socket_rooms st2 ''s1'')
           \<and> (\<exists>ds. handle st2 ''s9'' ''call-user'' (JObj [(''to'', JStr ''u1'')]) = Inr (st2, ds)
                  \<and> ''s1'' \<in> fst ` set ds)
           \<and> (\<exists>ds. handle st2 ''s9'' ''call-user'' (JObj [(''to'', JStr ''u2'')]) = Inr (st2, ds)
                  \<and> ''s1'' \<in> fst ` set ds))"
proof -
  let ?st0 = "[(''s1'', [JStr ''s1''])]"
  let ?st1 = "[(''s1'', [JStr ''s1'', JStr ''u1''])]"
  let ?u1 = "JObj [(''_id'', JStr ''u1'')]"
  let ?u2 = "JObj [(''_id'', JStr ''u2'')]"
  note g = rooms_only_grow [of ?st1 "''s1''" "''join chat''" "JStr ''c1''" "''u1''" "''u2''" ?u1 ?u2 "''s9''"]
  note t = rooms_only_grow [of ?st0 "''s1''" "''join chat''" "JStr ''c1''" "''u1''" "''u2''" ?u1 ?u2 "''s9''"]
  have j: "handle ?st1 ''s1'' ''join chat'' (JStr ''c1'')
             = Inr ([(''s1'', [JStr ''s1'', JStr ''u1'', JStr ''c1''])], [])"
    by (simp add: handle_join_chat on_join_chat_def socket_join_def room_args_def add_room_def)
  have 1: "set (socket_rooms ?st1 ''s1'')
     \<subseteq> set (socket_rooms [(''s1'', [JStr ''s1'', JStr ''u1'', JStr ''c1''])] ''s1'')"
    using g j by blast
  have h: "distinct (map fst ?st0) \<and> ''s1'' \<in> fst ` set ?st0 \<and> ''u1'' \<noteq> [] \<and> ''u2'' \<noteq> []
        \<and> field ?u1 ''_id'' = JStr ''u1'' \<and> field ?u2 ''_id'' = JStr ''u2''
        \<and> \<not> to_string_throws (field ?u1 ''name'') \<and> \<not> to_string_throws (field ?u2 ''name'')"
    by simp
  have s1: "handle ?st0 ''s1'' ''setup'' ?u1 = Inr (?st1, [(''s1'', ''connected'', [])])"
    by (simp add: handle_setup on_setup_def opt_field_eq socket_emit_def socket_join_def
          room_args_def add_room_def)
  from t h obtain st1 st2
    where a: "handle ?st0 ''s1'' ''setup'' ?u1 = Inr (st1, [(''s1'', ''connected'', [])])"
      and b: "handle st1 ''s1'' ''setup'' ?u2 = Inr (st2, [(''s1'', ''connected'', [])])"
      and c: "JStr ''u1'' \<in> set (socket_rooms st2 ''s1'')" "JStr ''u2'' \<in> set (socket_rooms st2 ''s1'')"
      and d: "\<forall>name \<in> set call_signals. \<forall>data.
                   field data ''to'' = JStr ''u1'' \<or> field data ''to'' = JStr ''u2''
                   \<longrightarrow> (\<exists>ds. handle st2 ''s9'' name data = Inr (st2, ds) \<and> ''s1'' \<in> fst ` set ds)"
    by blast
  from a s1 have e: "st1 = ?st1" by simp
  have n: "''call-user'' \<in> set call_signals" by (simp add: call_signals_def)
  have d1: "\<exists>ds. handle st2 ''s9'' ''call-user'' (JObj [(''to'', JStr ''u1'')]) = Inr (st2, ds)
                  \<and> ''s1'' \<in> fst ` set ds"
    using d [rule_format, OF n, of "JObj [(''to'', JStr ''u1'')]"] by simp
  have d2: "\<exists>ds. handle st2 ''s9'' ''call-user'' (JObj [(''to'', JStr ''u2'')]) = Inr (st2, ds)
                  \<and> ''s1'' \<in> fst ` set ds"
    using d [rule_format, OF n, of "JObj [(''to'', JStr ''u2'')]"] by simp
  from 1 b [unfolded e] c d1 d2 show ?thesis by blast
qed

section \<open>Disconnect\<close>

text \<open>
  C3, as the code has it. When a socket whose rooms are named by strings (or by other
  values that are not references) disconnects, the handler broadcasts one
  \<^verbatim>\<open>peer-disconnected\<close> event, carrying the id of the socket, to each room of the socket
  other than the room named by its own id. Another socket therefore receives one event
  for each such room that it shares with the disconnecting socket: none when it shares
  none, one when it shares one, and two when it shares two, which is the counterexample.
  Nothing but \<^verbatim>\<open>peer-disconnected\<close> events with that payload is delivered.
\<close>

theorem disconnect_notifies_once_per_shared_room:
  assumes "wf st"
  shows "(list_all (\<lambda>r. \<not> is_ref r) (socket_rooms st sid) \<longrightarrow>
           (\<forall>t. t \<noteq> sid \<longrightarrow>
              received (on_disconnecting st sid) t ''peer-disconnected'' =
                replicate (card {r \<in> set (socket_rooms st sid).
                                   r \<noteq> JStr sid \<and> r \<in> set (socket_rooms st t)})
                          [JObj [(''socketId'', JStr sid)]]))
         \<and> (\<forall>d \<in> set (on_disconnecting st sid).
               snd d = (''peer-disconnected'', [JObj [(''socketId'', JStr sid)]]))"
proof -
  have d: "distinct (map fst st)" using assms by (rule wf_distinct_fst)
  have r: "distinct (socket_rooms st sid)" using assms by (rule wf_distinct_rooms)
  have c: "length (filter (\<lambda>r. r \<noteq> JStr sid \<and> r \<in> set (socket_rooms st t)) (socket_rooms st sid))
             = card {r \<in> set (socket_rooms st sid). r \<noteq> JStr sid \<and> r \<in> set (socket_rooms st t)}" for t
  proof -
    have "length (filter (\<lambda>r. r \<noteq> JStr sid \<and> r \<in> set (socket_rooms st t)) (socket_rooms st sid))
            = card ({r. r \<noteq> JStr sid \<and> r \<in> set (socket_rooms st t)} \<inter> set (socket_rooms st sid))"
      using r by (rule distinct_length_filter)
    also have "{r. r \<noteq> JStr sid \<and> r \<in> set (socket_rooms st t)} \<inter> set (socket_rooms st sid)
                 = {r \<in> set (socket_rooms st sid). r \<noteq> JStr sid \<and> r \<in> set (socket_rooms st t)}"
      by auto
    finally show ?thesis .
  qed
  have 1: "list_all (\<lambda>r. \<not> is_ref r) (socket_rooms st sid) \<longrightarrow>
           (\<forall>t. t \<noteq> sid \<longrightarrow>
              received (on_disconnecting st sid) t ''peer-disconnected'' =
                replicate (card {r \<in> set (socket_rooms st sid).
                                   r \<noteq> JStr sid \<and> r \<in> set (socket_rooms st t)})
                          [JObj [(''socketId'', JStr sid)]])"
  proof
    assume p: "list_all (\<lambda>r. \<not> is_ref r) (socket_rooms st sid)"
    show "\<forall>t. t \<noteq> sid \<longrightarrow>
              received (on_disconnecting st sid) t ''peer-disconnected'' =
                replicate (card {r \<in> set (socket_rooms st sid).
                                   r \<noteq> JStr sid \<and> r \<in> set (socket_rooms st t)})
                          [JObj [(''socketId'', JStr sid)]]"
      by (simp add: received_on_disconnecting [OF d p] c)
  qed
  have 2: "\<forall>d \<in> set (on_disconnecting st sid).
               snd d = (''peer-disconnected'', [JObj [(''socketId'', JStr sid)]])"
    by (auto simp: on_disconnecting_def io_to_emit_def socket_emit_def
             split: if_splits jsval.splits)
  from 1 2 show ?thesis by blast
qed

theorem disconnect_notifies_once_per_shared_room_witness:
  "received (on_disconnecting
              [(''s1'', [JStr ''s1'', JStr ''u1'', JStr ''c1'']),
               (''s2'', [JStr ''s2'', JStr ''u2'', JStr ''c1'']),
               (''s3'', [JStr ''s3'', JStr ''u3'', JStr ''c2''])] ''s1'')
      ''s2'' ''peer-disconnected'' = [[JObj [(''socketId'', JStr ''s1'')]]]
   \<and> received (on_disconnecting
              [(''s1'', [JStr ''s1'', JStr ''u1'', JStr ''c1'']),
               (''s2'', [JStr ''s2'', JStr ''u2'', JStr ''c1'']),
               (''s3'', [JStr ''s3'', JStr ''u3'', JStr ''c2''])] ''s1'')
      ''s3'' ''peer-disconnected'' = []"
proof -
  let ?st = "[(''s1'', [JStr ''s1'', JStr ''u1'', JStr ''c1'']),
              (''s2'', [JStr ''s2'', JStr ''u2'', JStr ''c1'']),
              (''s3'', [JStr ''s3'', JStr ''u3'', JStr ''c2''])]"
  have w: "wf ?st" by (simp add: wf_def)
  have p: "list_all (\<lambda>r. \<not> is_ref r) (socket_rooms ?st ''s1'')" by (simp add: socket_rooms_def)
  from disconnect_notifies_once_per_shared_room [OF w, of "''s1''"] p
  have t: "\<forall>t. t \<noteq> ''s1'' \<longrightarrow>
              received (on_disconnecting ?st ''s1'') t ''peer-disconnected'' =
                replicate (card {r \<in> set (socket_rooms ?st ''s1'').
                                   r \<noteq> JStr ''s1'' \<and> r \<in> set (socket_rooms ?st t)})
                          [JObj [(''socketId'', JStr ''s1'')]]"
    by blast
  have c2: "{r \<in> set (socket_rooms ?st ''s1''). r \<noteq> JStr ''s1'' \<and> r \<in> set (socket_rooms ?st ''s2'')}
              = {JStr ''c1''}"
    by (auto simp: socket_rooms_def)
  have c3: "{r \<in> set (socket_rooms ?st ''s1''). r \<noteq> JStr ''s1'' \<and> r \<in> set (socket_rooms ?st ''s3'')}
              = {}"
    by (auto simp: socket_rooms_def)
  have n2: "''s2'' \<noteq> ''s1''" by simp
  have n3: "''s3'' \<noteq> ''s1''" by simp
  have 1: "received (on_disconnecting ?st ''s1'') ''s2'' ''peer-disconnected''
             = [[JObj [(''socketId'', JStr ''s1'')]]]"
    using t [rule_format, OF n2] c2 by simp
  have 2: "received (on_disconnecting ?st ''s1'') ''s3'' ''peer-disconnected'' = []"
    using t [rule_format, OF n3] c3 by simp
  from 1 2 show ?thesis by blast
qed

theorem disconnect_two_shared_rooms_counterexample:
  "received (on_disconnecting
              [(''s1'', [JStr ''s1'', JStr ''u1'', JStr ''c1'', JStr ''c2'']),
               (''s2'', [JStr ''s2'', JStr ''u2'', JStr ''c1'', JStr ''c2''])] ''s1'')
      ''s2'' ''peer-disconnected''
   = [[JObj [(''socketId'', JStr ''s1'')]], [JObj [(''socketId'', JStr ''s1'')]]]"
  by (simp add: on_disconnecting_def socket_rooms_def io_to_emit_def io_to_def room_args_def
        received_def)

end
